theory Spec2Isabelle
  imports Main "HOL-Library.Char_ord" "HOL-Library.List_Lexorder"
begin

section \<open>Text\<close>

text \<open>
  Python \<open>str\<close> values are modelled as Isabelle strings holding the UTF-8 bytes of the
  text. Every literal the two scripts search for is ASCII, and a UTF-8 sequence of a
  non-ASCII code point contains no ASCII byte, so substring search, equality and the
  code-point order of \<open>sorted\<close> agree on bytes and on code points. A text is taken to be
  valid UTF-8, as the text of a file read with \<open>encoding="utf-8"\<close> is.

  Whitespace (\<open>\s\<close>, \<open>str.strip\<close>) is Python's full set of 29 whitespace characters, each
  given by its encoding. Two tables of the Unicode database are parameters: \<open>nd\<close>
  tells whether a byte sequence encodes a decimal digit outside ASCII (\<open>\d\<close>), and \<open>lw\<close>
  is \<open>str.lower\<close> on a text that has a character outside ASCII. On ASCII the
  definitions below are exact.
\<close>

fun startswith :: "string \<Rightarrow> string \<Rightarrow> bool" where
  "startswith s [] = True"
| "startswith [] (p # ps) = False"
| "startswith (c # cs) (p # ps) = (c = p \<and> startswith cs ps)"

text \<open>
  \<open>split_once p s\<close> is \<open>s.split(p, 1)\<close> when \<open>p in s\<close>: the text before and after the
  leftmost occurrence of \<open>p\<close>; \<open>None\<close> when \<open>p\<close> does not occur. It is also the lazy
  \<open>(.*?)p\<close> of a regular expression under \<open>re.S\<close>.
\<close>

fun split_once :: "string \<Rightarrow> string \<Rightarrow> (string \<times> string) option" where
  "split_once p [] = (if p = [] then Some ([], []) else None)"
| "split_once p (c # cs) =
     (if startswith (c # cs) p then Some ([], drop (length p) (c # cs))
      else (case split_once p cs of
              None \<Rightarrow> None
            | Some (a, b) \<Rightarrow> Some (c # a, b)))"

lemma startswith_append: "startswith s p \<longleftrightarrow> (\<exists>r. s = p @ r)"
  by (induction s p rule: startswith.induct) auto

text \<open>
  The whitespace characters of \<open>str.isspace\<close>, which \<open>\s\<close> and \<open>str.strip\<close> use: U+0009 to
  U+000D, U+001C to U+001F, U+0020, U+0085, U+00A0, U+1680, U+2000 to U+200A, U+2028,
  U+2029, U+202F, U+205F and U+3000, in UTF-8.
\<close>

definition whitespace :: "string list" where
  "whitespace =
     [[CHR 0x09], [CHR 0x0A], [CHR 0x0B], [CHR 0x0C], [CHR 0x0D],
      [CHR 0x1C], [CHR 0x1D], [CHR 0x1E], [CHR 0x1F], [CHR 0x20],
      [CHR 0xC2, CHR 0x85], [CHR 0xC2, CHR 0xA0], [CHR 0xE1, CHR 0x9A, CHR 0x80],
      [CHR 0xE2, CHR 0x80, CHR 0x80], [CHR 0xE2, CHR 0x80, CHR 0x81],
      [CHR 0xE2, CHR 0x80, CHR 0x82], [CHR 0xE2, CHR 0x80, CHR 0x83],
      [CHR 0xE2, CHR 0x80, CHR 0x84], [CHR 0xE2, CHR 0x80, CHR 0x85],
      [CHR 0xE2, CHR 0x80, CHR 0x86], [CHR 0xE2, CHR 0x80, CHR 0x87],
      [CHR 0xE2, CHR 0x80, CHR 0x88], [CHR 0xE2, CHR 0x80, CHR 0x89],
      [CHR 0xE2, CHR 0x80, CHR 0x8A], [CHR 0xE2, CHR 0x80, CHR 0xA8],
      [CHR 0xE2, CHR 0x80, CHR 0xA9], [CHR 0xE2, CHR 0x80, CHR 0xAF],
      [CHR 0xE2, CHR 0x81, CHR 0x9F], [CHR 0xE3, CHR 0x80, CHR 0x80]]"

text \<open>
  \<open>strip_left ps s\<close> removes from the front of \<open>s\<close> every leading occurrence of a text of
  \<open>ps\<close>, until none is left: with \<open>whitespace\<close> it is \<open>str.lstrip\<close> and the greedy \<open>\s*\<close>.
\<close>

function strip_left :: "string list \<Rightarrow> string \<Rightarrow> string" where
  "strip_left ps s =
     (case find (\<lambda>p. p \<noteq> [] \<and> startswith s p) ps of
        None \<Rightarrow> s
      | Some p \<Rightarrow> strip_left ps (drop (length p) s))"
  by pat_completeness auto
termination
proof (relation "measure (\<lambda>(ps, s). length s)")
  show "wf (measure (\<lambda>(ps, s). length s))" by simp
next
  fix ps :: "string list" and s p :: string
  assume "find (\<lambda>p. p \<noteq> [] \<and> startswith s p) ps = Some p"
  then have "p \<noteq> []" "startswith s p" by (auto simp: find_Some_iff)
  then obtain r where "s = p @ r" by (auto simp: startswith_append)
  with \<open>p \<noteq> []\<close> show "((ps, drop (length p) s), (ps, s)) \<in> measure (\<lambda>(ps, s). length s)"
    by simp
qed

declare strip_left.simps [simp del]

text \<open>\<open>str.strip()\<close>: whitespace is removed at both ends.\<close>

definition strip :: "string \<Rightarrow> string" where
  "strip s = rev (strip_left (map rev whitespace) (rev (strip_left whitespace s)))"

text \<open>
  The number of bytes of a UTF-8 sequence, from its first byte, and the number of bytes
  of the decimal digit at the front of a text, \<open>0\<close> when there is none.
\<close>

definition utf8_width :: "char \<Rightarrow> nat" where
  "utf8_width c =
     (if of_char c < (0x80::nat) then 1
      else if of_char c < (0xE0::nat) then 2
      else if of_char c < (0xF0::nat) then 3
      else 4)"

definition digit_width :: "(string \<Rightarrow> bool) \<Rightarrow> string \<Rightarrow> nat" where
  "digit_width nd s =
     (case s of
        [] \<Rightarrow> 0
      | c # r \<Rightarrow>
          if c \<in> set ''0123456789'' then 1
          else if of_char c < (0x80::nat) then 0
          else if nd (take (utf8_width c) s) then utf8_width c
          else 0)"

text \<open>The greedy \<open>\d*\<close>: the text after the leading decimal digits.\<close>

function skip_digits :: "(string \<Rightarrow> bool) \<Rightarrow> string \<Rightarrow> string" where
  "skip_digits nd s =
     (if digit_width nd s = 0 then s else skip_digits nd (drop (digit_width nd s) s))"
  by pat_completeness auto
termination
proof (relation "measure (\<lambda>(nd, s). length s)")
  show "wf (measure (\<lambda>(nd, s). length s))" by simp
next
  fix nd :: "string \<Rightarrow> bool" and s :: string
  assume "digit_width nd s \<noteq> 0"
  moreover from this have "s \<noteq> []" by (auto simp: digit_width_def)
  ultimately show "((nd, drop (digit_width nd s) s), (nd, s)) \<in> measure (\<lambda>(nd, s). length s)"
    by simp
qed

declare skip_digits.simps [simp del]

text \<open>
  \<open>str.lower\<close>: on an ASCII text the letters \<open>A\<close> to \<open>Z\<close> are folded; any other text is
  folded by \<open>lw\<close>.
\<close>

definition lower_ascii :: "char \<Rightarrow> char" where
  "lower_ascii c =
     (if of_char c \<ge> (65::nat) \<and> of_char c \<le> (90::nat) then char_of (of_char c + (32::nat)) else c)"

definition lower :: "(string \<Rightarrow> string) \<Rightarrow> string \<Rightarrow> string" where
  "lower lw s = (if list_all (\<lambda>c. of_char c < (0x80::nat)) s then map lower_ascii s else lw s)"

text \<open>
  \<open>str_remove old s\<close> is \<open>s.replace(old, '')\<close>: every occurrence of \<open>old\<close>, found left
  to right without overlap, is deleted.
\<close>

function str_remove :: "string \<Rightarrow> string \<Rightarrow> string" where
  "str_remove old [] = []"
| "str_remove old (c # cs) =
     (if old \<noteq> [] \<and> startswith (c # cs) old then str_remove old (drop (length old) (c # cs))
      else c # str_remove old cs)"
  by pat_completeness auto
termination
  by (relation "measure (\<lambda>(old, s). length s)") auto

text \<open>\<open>splitc c s\<close> is \<open>s.split(c)\<close> for a one-character separator.\<close>

fun splitc :: "char \<Rightarrow> string \<Rightarrow> string list" where
  "splitc c [] = [[]]"
| "splitc c (x # xs) =
     (if x = c then [] # splitc c xs
      else (case splitc c xs of
              [] \<Rightarrow> [[x]]
            | y # ys \<Rightarrow> (x # y) # ys))"

text \<open>
  \<open>path_name p\<close> is \<open>Path(p).name\<close> on a POSIX system: the path is split at \<open>/\<close>, empty
  components and \<open>.\<close> are dropped, and the name is the last component left, or the empty
  string when none is.
\<close>

definition path_name :: "string \<Rightarrow> string" where
  "path_name p =
     (case filter (\<lambda>x. x \<noteq> [] \<and> x \<noteq> ''.'') (splitc (CHR ''/'') p) of
        [] \<Rightarrow> []
      | q # qs \<Rightarrow> last (q # qs))"

section \<open>Catalog records and command inference\<close>

record ProductRecord =
  group :: string
  product_name :: string
  product_short :: string
  repo_path :: "string option"

definition infer_server_command :: "ProductRecord \<Rightarrow> string option" where
  "infer_server_command record =
     (case repo_path record of
        None \<Rightarrow> None
      | Some rp \<Rightarrow>
          if rp = [] then None
          else
            let repo_name = path_name rp in
            if startswith repo_name ''mcp_server_''
            then Some (''mcp-server-'' @ str_remove ''mcp_server_'' repo_name)
            else None)"

section \<open>The catalog parser\<close>

text \<open>
  Each regular expression of \<open>_extract_rows\<close> and \<open>load_hierarchy\<close> is modelled by a
  matcher anchored at the start of its argument, and by a scan that tries the matcher
  at every position from left to right, as \<open>re.search\<close>, \<open>re.findall\<close> and \<open>re.sub\<close> do.
  None of the patterns matches the empty string.
\<close>

text \<open>\<open><tr>(.*?)</tr>\<close> under \<open>re.S\<close>: the captured group and the text after the match.\<close>

definition tr_match :: "string \<Rightarrow> (string \<times> string) option" where
  "tr_match s = (if startswith s ''<tr>'' then split_once ''</tr>'' (drop 4 s) else None)"

text \<open>
  The opening tag \<open><td(?:\s+rowspan="\d+")?>\<close>: the text after it. The optional group
  starts with whitespace, so it is either matched whole or the tag closes at once;
  \<open>\s+\<close> and \<open>\d+\<close> each need one character at least.
\<close>

definition td_open :: "(string \<Rightarrow> bool) \<Rightarrow> string \<Rightarrow> string option" where
  "td_open nd s =
     (if startswith s ''<td'' then
        let r = drop 3 s in
        if startswith r ''>'' then Some (drop 1 r)
        else
          let r1 = strip_left whitespace r in
          if r1 \<noteq> r \<and> startswith r1 (''rowspan='' @ [CHR 0x22]) then
            let r2 = drop 9 r1;
                r3 = skip_digits nd r2
            in if r3 \<noteq> r2 \<and> startswith r3 [CHR 0x22, CHR ''>'']
               then Some (drop 2 r3)
               else None
          else None
      else None)"

definition td_match :: "(string \<Rightarrow> bool) \<Rightarrow> string \<Rightarrow> (string \<times> string) option" where
  "td_match nd s = (case td_open nd s of None \<Rightarrow> None | Some r \<Rightarrow> split_once ''</td>'' r)"

text \<open>
  \<open><.*?>\<close> without \<open>re.S\<close>, as \<open>re.sub\<close> uses it on a cell: the dot does not match a
  newline, so a \<open><\<close> is a tag only if a \<open>>\<close> follows on the same line. The result is the
  text after the tag.
\<close>

definition tag_match :: "string \<Rightarrow> string option" where
  "tag_match s =
     (case s of
        [] \<Rightarrow> None
      | c # r \<Rightarrow>
          if c = CHR ''<'' then
            (case dropWhile (\<lambda>x. x \<noteq> CHR ''>'' \<and> x \<noteq> CHR 0x0A) r of
               [] \<Rightarrow> None
             | d # r' \<Rightarrow> if d = CHR ''>'' then Some r' else None)
          else None)"

text \<open>\<open>href="([^"]+)"\<close>: the captured link target.\<close>

definition href_match :: "string \<Rightarrow> string option" where
  "href_match s =
     (if startswith s (''href='' @ [CHR 0x22]) then
        let r = drop 6 s in
        if takeWhile (\<lambda>x. x \<noteq> CHR 0x22) r \<noteq> [] \<and> dropWhile (\<lambda>x. x \<noteq> CHR 0x22) r \<noteq> []
        then Some (takeWhile (\<lambda>x. x \<noteq> CHR 0x22) r)
        else None
      else None)"

text \<open>\<open><table.*?</table>\<close> under \<open>re.S\<close>: the whole matched text.\<close>

definition table_match :: "string \<Rightarrow> string option" where
  "table_match s =
     (if startswith s ''<table'' then
        (case split_once ''</table>'' (drop 6 s) of
           None \<Rightarrow> None
         | Some (mid, rest) \<Rightarrow> Some (''<table'' @ mid @ ''</table>''))
      else None)"

lemma split_once_length:
  "split_once p s = Some (a, b) \<Longrightarrow> length a + length p + length b = length s"
proof (induction s arbitrary: a b)
  case Nil
  then show ?case by (simp split: if_splits)
next
  case (Cons c cs)
  show ?case
  proof (cases "startswith (c # cs) p")
    case True
    with Cons.prems have ab: "a = []" "b = drop (length p) (c # cs)" by auto
    from True obtain r where "c # cs = p @ r" by (auto simp: startswith_append)
    with ab show ?thesis by simp
  next
    case False
    with Cons.prems obtain a' where "split_once p cs = Some (a', b)" "a = c # a'"
      by (auto split: option.splits)
    with Cons.IH show ?thesis by fastforce
  qed
qed

lemma tr_match_shorter: "tr_match s = Some (a, b) \<Longrightarrow> length b < length s"
  by (auto simp: tr_match_def split: if_splits dest!: split_once_length)

lemma strip_left_length: "length (strip_left ps s) \<le> length s"
proof (induction ps s rule: strip_left.induct)
  case (1 ps s)
  show ?case
  proof (cases "find (\<lambda>p. p \<noteq> [] \<and> startswith s p) ps")
    case None
    then show ?thesis by (simp add: strip_left.simps [of ps s])
  next
    case (Some p)
    with "1" have "length (strip_left ps (drop (length p) s)) \<le> length (drop (length p) s)"
      by simp
    with Some show ?thesis by (simp add: strip_left.simps [of ps s])
  qed
qed

lemma skip_digits_length: "length (skip_digits nd s) \<le> length s"
proof (induction nd s rule: skip_digits.induct)
  case (1 nd s)
  show ?case
  proof (cases "digit_width nd s = 0")
    case True
    then show ?thesis by (simp add: skip_digits.simps [of nd s])
  next
    case False
    with "1" have "length (skip_digits nd (drop (digit_width nd s) s))
        \<le> length (drop (digit_width nd s) s)" by simp
    with False show ?thesis by (simp add: skip_digits.simps [of nd s])
  qed
qed

lemma td_open_shorter: "td_open nd s = Some r \<Longrightarrow> length r < length s"
proof -
  assume h: "td_open nd s = Some r"
  then have sw: "startswith s ''<td''"
    by (simp add: td_open_def split: if_splits)
  then obtain t where t: "s = ''<td'' @ t" by (auto simp: startswith_append)
  then have d: "drop 3 s = t" by simp
  let ?r3 = "skip_digits nd (drop 9 (strip_left whitespace t))"
  from h sw d have "r = drop 1 t \<or> r = drop 2 ?r3"
    by (auto simp: td_open_def Let_def split: if_splits)
  moreover have "length (drop 2 ?r3) \<le> length t"
    using skip_digits_length [of nd "drop 9 (strip_left whitespace t)"]
      strip_left_length [of whitespace t] by simp
  ultimately have "length r \<le> length t" by auto
  with t show ?thesis by simp
qed

lemma td_match_shorter: "td_match nd s = Some (a, b) \<Longrightarrow> length b < length s"
  by (auto simp: td_match_def split: option.splits
      dest!: split_once_length td_open_shorter)

lemma tag_match_shorter: "tag_match s = Some r \<Longrightarrow> length r < length s"
proof -
  assume h: "tag_match s = Some r"
  then obtain c t where s: "s = c # t"
    by (cases s) (auto simp: tag_match_def)
  with h obtain d where
    "dropWhile (\<lambda>x. x \<noteq> CHR ''>'' \<and> x \<noteq> CHR 0x0A) t = d # r"
    by (auto simp: tag_match_def split: if_splits list.splits)
  then have "length r < length (dropWhile (\<lambda>x. x \<noteq> CHR ''>'' \<and> x \<noteq> CHR 0x0A) t)"
    by simp
  also have "\<dots> \<le> length t" by (rule length_dropWhile_le)
  finally show ?thesis using s by simp
qed

function tr_findall :: "string \<Rightarrow> string list" where
  "tr_findall [] = []"
| "tr_findall (c # cs) =
     (case tr_match (c # cs) of
        Some (body, rest) \<Rightarrow> body # tr_findall rest
      | None \<Rightarrow> tr_findall cs)"
  by pat_completeness auto
termination
  by (relation "measure length") (auto dest: tr_match_shorter)

function td_findall :: "(string \<Rightarrow> bool) \<Rightarrow> string \<Rightarrow> string list" where
  "td_findall nd [] = []"
| "td_findall nd (c # cs) =
     (case td_match nd (c # cs) of
        Some (body, rest) \<Rightarrow> body # td_findall nd rest
      | None \<Rightarrow> td_findall nd cs)"
  by pat_completeness auto
termination
  by (relation "measure (\<lambda>(nd, s). length s)") (auto dest: td_match_shorter)

text \<open>\<open>re.sub(r"<.*?>", "", col)\<close>\<close>

function strip_tags :: "string \<Rightarrow> string" where
  "strip_tags [] = []"
| "strip_tags (c # cs) =
     (case tag_match (c # cs) of
        Some rest \<Rightarrow> strip_tags rest
      | None \<Rightarrow> c # strip_tags cs)"
  by pat_completeness auto
termination
  by (relation "measure length") (auto dest: tag_match_shorter)

fun href_search :: "string \<Rightarrow> string option" where
  "href_search [] = None"
| "href_search (c # cs) =
     (case href_match (c # cs) of
        Some h \<Rightarrow> Some h
      | None \<Rightarrow> href_search cs)"

fun table_search :: "string \<Rightarrow> string option" where
  "table_search [] = None"
| "table_search (c # cs) =
     (case table_match (c # cs) of
        Some t \<Rightarrow> Some t
      | None \<Rightarrow> table_search cs)"

text \<open>
  The body of the row loop of \<open>_extract_rows\<close>. \<open>cleaned_cells\<close> is the list \<open>cleaned\<close>,
  \<open>row_repo_path\<close> the value of \<open>repo_path\<close>, and \<open>row_step\<close> gives the value of
  \<open>current_group\<close> after the row together with the record the row appends, if any.
  \<open>ungrouped\<close> is the fallback literal of the source (three CJK characters, nine bytes).
\<close>

definition cleaned_cells :: "(string \<Rightarrow> bool) \<Rightarrow> string \<Rightarrow> string list" where
  "cleaned_cells nd row = map (\<lambda>col. strip (strip_tags col)) (td_findall nd row)"

definition marker :: string where
  "marker = ''mcp-server/tree/master-dev/''"

definition row_repo_path :: "string \<Rightarrow> string option" where
  "row_repo_path row =
     (case href_search row of
        None \<Rightarrow> None
      | Some href \<Rightarrow>
          (case split_once marker href of
             None \<Rightarrow> None
           | Some (before, after) \<Rightarrow> Some after))"

definition ungrouped :: string where
  "ungrouped = [CHR 0xE6, CHR 0x9C, CHR 0xAA, CHR 0xE5, CHR 0x88, CHR 0x86,
                CHR 0xE7, CHR 0xBB, CHR 0x84]"

text \<open>Truthiness of an \<open>Optional[str]\<close>: \<open>None\<close> and the empty string are false.\<close>

definition str_truthy :: "string option \<Rightarrow> bool" where
  "str_truthy v = (case v of None \<Rightarrow> False | Some s \<Rightarrow> s \<noteq> [])"

definition group_or_default :: "string option \<Rightarrow> string" where
  "group_or_default current_group =
     (case current_group of
        None \<Rightarrow> ungrouped
      | Some g \<Rightarrow> if g \<noteq> [] then g else ungrouped)"

definition row_step ::
  "(string \<Rightarrow> bool) \<Rightarrow> string option \<Rightarrow> string \<Rightarrow> string option \<times> ProductRecord option" where
  "row_step nd current_group row =
     (if td_findall nd row = [] then (current_group, None)
      else
        let cleaned = cleaned_cells nd row;
            repo = row_repo_path row
        in
          if length cleaned = 3 then
            (Some (cleaned ! 0),
             Some \<lparr>group = group_or_default (Some (cleaned ! 0)),
                   product_name = cleaned ! 1,
                   product_short = cleaned ! 2,
                   repo_path = repo\<rparr>)
          else if length cleaned = 2 \<and> str_truthy current_group then
            (current_group,
             Some \<lparr>group = group_or_default current_group,
                   product_name = cleaned ! 0,
                   product_short = cleaned ! 1,
                   repo_path = repo\<rparr>)
          else (current_group, None))"

fun extract_loop ::
  "(string \<Rightarrow> bool) \<Rightarrow> string option \<Rightarrow> ProductRecord list \<Rightarrow> string list \<Rightarrow> ProductRecord list" where
  "extract_loop nd current_group products [] = products"
| "extract_loop nd current_group products (row # rows) =
     (case row_step nd current_group row of
        (current_group', None) \<Rightarrow> extract_loop nd current_group' products rows
      | (current_group', Some item) \<Rightarrow>
          extract_loop nd current_group' (products @ [item]) rows)"

definition extract_rows :: "(string \<Rightarrow> bool) \<Rightarrow> string \<Rightarrow> ProductRecord list" where
  "extract_rows nd table_html = extract_loop nd None [] (tr_findall table_html)"

section \<open>The hierarchy index\<close>

text \<open>
  The errors of \<open>hierarchy_query.py\<close>, named as the specification names them:
  \<open>CatalogFormatError\<close> is the \<open>RuntimeError\<close> of \<open>load_hierarchy\<close>, \<open>UnknownGroupError\<close>
  and \<open>UnknownProductError\<close> are the \<open>ValueError\<close>s of \<open>list_products\<close> and
  \<open>find_product\<close>, \<open>NoLaunchCommandError\<close> is the \<open>RuntimeError\<close> of \<open>collect_api\<close>, and
  \<open>CalledProcessError\<close> is what \<open>subprocess.run\<close> raises under \<open>check=True\<close> for a
  non-zero exit status.
\<close>

datatype error =
    CatalogFormatError
  | UnknownGroupError
  | UnknownProductError
  | NoLaunchCommandError
  | CalledProcessError int

text \<open>
  The hierarchy is a Python \<open>dict\<close>, which keeps its keys in insertion order: an
  association list with one entry per key.
\<close>

type_synonym hierarchy = "(string \<times> ProductRecord list) list"

text \<open>\<open>hierarchy.setdefault(k, []).append(item)\<close>\<close>

fun setdefault_append :: "string \<Rightarrow> ProductRecord \<Rightarrow> hierarchy \<Rightarrow> hierarchy" where
  "setdefault_append k item [] = [(k, [item])]"
| "setdefault_append k item ((k', v) # h) =
     (if k' = k then (k', v @ [item]) # h else (k', v) # setdefault_append k item h)"

text \<open>
  \<open>load_hierarchy\<close> takes the text of the catalog document, which the source reads from
  a fixed file.
\<close>

definition load_hierarchy :: "(string \<Rightarrow> bool) \<Rightarrow> string \<Rightarrow> error + hierarchy" where
  "load_hierarchy nd content =
     (case table_search content of
        None \<Rightarrow> Inl CatalogFormatError
      | Some table_html \<Rightarrow>
          Inr (foldl (\<lambda>h item. setdefault_append (group item) item h) []
                 (extract_rows nd table_html)))"

text \<open>\<open>hierarchy.get(group_name, [])\<close>\<close>

definition hierarchy_get :: "hierarchy \<Rightarrow> string \<Rightarrow> ProductRecord list" where
  "hierarchy_get h group_name = (case map_of h group_name of None \<Rightarrow> [] | Some v \<Rightarrow> v)"

text \<open>
  \<open>list_groups\<close> prints one line per group after a header line; the model returns what
  the lines show, the group names in sorted order with the size of each group.
\<close>

definition list_groups :: "hierarchy \<Rightarrow> (string \<times> nat) list" where
  "list_groups h = map (\<lambda>g. (g, length (hierarchy_get h g))) (sort (map fst h))"

definition list_products :: "hierarchy \<Rightarrow> string \<Rightarrow> error + ProductRecord list" where
  "list_products h group_name =
     (let items = hierarchy_get h group_name
      in if items = [] then Inl UnknownGroupError else Inr items)"

definition product_matches :: "(string \<Rightarrow> string) \<Rightarrow> string \<Rightarrow> ProductRecord \<Rightarrow> bool" where
  "product_matches lw product item \<longleftrightarrow>
     product_name item = product \<or> lower lw (product_short item) = lower lw product"

definition find_product ::
  "(string \<Rightarrow> string) \<Rightarrow> hierarchy \<Rightarrow> string \<Rightarrow> string \<Rightarrow> error + ProductRecord" where
  "find_product lw h group_name product =
     (case find (product_matches lw product) (hierarchy_get h group_name) of
        Some item \<Rightarrow> Inr item
      | None \<Rightarrow> Inl UnknownProductError)"

section \<open>The schema collector\<close>

text \<open>
  Structured documents as \<open>json.dump\<close> writes them. An object keeps its members in
  insertion order, as a Python \<open>dict\<close> does. Floating-point numbers are left out.
\<close>

datatype json =
    JNull
  | JBool bool
  | JInt int
  | JStr string
  | JArr "json list"
  | JObj "(string \<times> json) list"

text \<open>Python's truth value of a document, as \<open>if tool.inputSchema\<close> tests it.\<close>

fun truthy :: "json \<Rightarrow> bool" where
  "truthy JNull = False"
| "truthy (JBool b) = b"
| "truthy (JInt i) = (i \<noteq> 0)"
| "truthy (JStr s) = (s \<noteq> [])"
| "truthy (JArr xs) = (xs \<noteq> [])"
| "truthy (JObj kvs) = (kvs \<noteq> [])"

text \<open>
  A tool object of the session library. \<open>inputSchema\<close> and \<open>parameters\<close> are \<open>None\<close> when
  the object has no such attribute (\<open>hasattr\<close> is false, \<open>getattr\<close> takes its default); an
  attribute that holds Python's \<open>None\<close> is \<open>Some JNull\<close>. \<open>description\<close> is \<open>None\<close> for
  Python's \<open>None\<close>.
\<close>

record Tool =
  name :: string
  description :: "string option"
  inputSchema :: "json option"
  parameters :: "json option"

type_synonym schemas = "(string \<times> json) list"

text \<open>\<open>d[k] = v\<close> on a \<open>dict\<close>: a present key keeps its place, a new key goes last.\<close>

fun dict_set :: "string \<Rightarrow> json \<Rightarrow> schemas \<Rightarrow> schemas" where
  "dict_set k v [] = [(k, v)]"
| "dict_set k v ((k', v') # d) =
     (if k' = k then (k, v) # d else (k', v') # dict_set k v d)"

definition has_input_schema :: "Tool \<Rightarrow> bool" where
  "has_input_schema tool = (case inputSchema tool of None \<Rightarrow> False | Some s \<Rightarrow> truthy s)"

definition descr_json :: "Tool \<Rightarrow> json" where
  "descr_json tool = (case description tool of None \<Rightarrow> JNull | Some d \<Rightarrow> JStr d)"

text \<open>The value the tool loop stores under \<open>tool.name\<close>.\<close>

definition tool_entry :: "Tool \<Rightarrow> json" where
  "tool_entry tool =
     (if has_input_schema tool then
        JObj [(''description'', descr_json tool),
              (''inputSchema'', (case inputSchema tool of Some s \<Rightarrow> s | None \<Rightarrow> JNull)),
              (''parameters'', (case parameters tool of Some p \<Rightarrow> p | None \<Rightarrow> JObj []))]
      else
        JObj [(''description'', descr_json tool),
              (''inputSchema'', JNull)])"

text \<open>
  An exception: one of the \<open>Exception\<close> hierarchy, with its message, or one outside it
  (\<open>asyncio.CancelledError\<close>, \<open>KeyboardInterrupt\<close>, \<open>SystemExit\<close>), with its name and the
  exit status of a process that it ends.
\<close>

datatype exn = Exception string | BaseException string int

fun exit_status :: "exn \<Rightarrow> int" where
  "exit_status (Exception e) = 1"
| "exit_status (BaseException n status) = status"

text \<open>
  What the session with a server does, seen from \<open>get_server_schemas\<close>: \<open>Raised e\<close> when
  starting the server, the handshake, \<open>list_tools\<close> or a step of the tool loop raises the
  exception \<open>e\<close>, so that no mapping is returned;
  \<open>Listed tools closing\<close> when \<open>list_tools\<close> returns \<open>tools\<close>, where \<open>closing\<close> is the
  exception raised, if any, when the two \<open>async with\<close> blocks are left after the loop.
\<close>

datatype session = Raised exn | Listed "Tool list" "exn option"

text \<open>The outcome of launching a command with arguments.\<close>

type_synonym server = "string \<Rightarrow> string list \<Rightarrow> session"

text \<open>The \<open>try\<close> block of \<open>get_server_schemas\<close>: the mapping it returns or the exception.\<close>

definition session_body :: "session \<Rightarrow> exn + schemas" where
  "session_body s =
     (case s of
        Raised e \<Rightarrow> Inl e
      | Listed tools closing \<Rightarrow>
          let schemas = foldl (\<lambda>d tool. dict_set (name tool) (tool_entry tool) d) [] tools
          in (case closing of None \<Rightarrow> Inr schemas | Some e \<Rightarrow> Inl e))"

text \<open>
  The line that the handler prints to \<open>sys.stderr\<close>: a fixed prefix of the source (nine
  CJK characters, a colon and a space) and the message of the exception.
\<close>

definition error_report :: "string \<Rightarrow> string" where
  "error_report e =
     [CHR 0xE8, CHR 0xBF, CHR 0x9E, CHR 0xE6, CHR 0x8E, CHR 0xA5, CHR 0xE6, CHR 0x9C, CHR 0x8D,
      CHR 0xE5, CHR 0x8A, CHR 0xA1, CHR 0xE5, CHR 0x99, CHR 0xA8, CHR 0xE6, CHR 0x97, CHR 0xB6,
      CHR 0xE5, CHR 0x87, CHR 0xBA, CHR 0xE9, CHR 0x94, CHR 0x99, CHR 0x3A, CHR 0x20] @ e"

text \<open>
  A call of \<open>get_server_schemas\<close>: its outcome and the lines it prints to \<open>sys.stderr\<close>.
  The handler \<open>except Exception\<close> reports an exception of the \<open>Exception\<close> hierarchy and
  returns \<open>{}\<close>; any other exception reaches the caller. \<open>get_server_schemas\<close> is the
  outcome alone.
\<close>

definition get_server_schemas_run ::
  "server \<Rightarrow> string \<Rightarrow> string list \<Rightarrow> (exn + schemas) \<times> string list" where
  "get_server_schemas_run srv server_command args =
     (case session_body (srv server_command args) of
        Inl (Exception e) \<Rightarrow> (Inr [], [error_report e])
      | Inl (BaseException n status) \<Rightarrow> (Inl (BaseException n status), [])
      | Inr schemas \<Rightarrow> (Inr schemas, []))"

definition get_server_schemas :: "server \<Rightarrow> string \<Rightarrow> string list \<Rightarrow> exn + schemas" where
  "get_server_schemas srv server_command args =
     fst (get_server_schemas_run srv server_command args)"

text \<open>
  The machine the scripts run on. The scripts change the documents held by files, the
  list of the paths written, in order, and the list of the argument lists of the
  collector processes that \<open>collect_api\<close> has run (the script and its options; the path of
  the interpreter is left out). They do not change \<open>openable\<close>, which tells whether
  \<open>open(path, 'w')\<close> succeeds (it fails for the empty path, a directory, a missing parent
  directory or a missing permission), nor \<open>dash_value\<close>, which tells whether the
  \<open>argparse\<close> of the interpreter reads a text that starts with \<open>-\<close> as the value of the
  option before it.
\<close>

record world =
  files :: "string \<rightharpoonup> json"
  written :: "string list"
  runs :: "string list list"
  openable :: "string \<Rightarrow> bool"
  dash_value :: "string \<Rightarrow> bool"

text \<open>
  \<open>save_schemas_to_file\<close> opens the file for writing and dumps the mapping; when the file
  cannot be opened the \<open>OSError\<close> is not handled and nothing is written. Once the file is
  open the dump is taken to complete.
\<close>

definition save_schemas_to_file :: "schemas \<Rightarrow> string \<Rightarrow> world \<Rightarrow> exn + world" where
  "save_schemas_to_file schemas filename w =
     (if openable w filename
      then Inr (w\<lparr>files := (files w)(filename \<mapsto> JObj schemas),
                  written := written w @ [filename]\<rparr>)
      else Inl (Exception ''OSError''))"

text \<open>
  \<open>main\<close> of \<open>mcp_collect.py\<close> with its parsed arguments; the result is the exit status of
  the process and the world it leaves. An exception that is not handled ends the
  process with its exit status.
\<close>

definition mcp_collect_main :: "server \<Rightarrow> string \<Rightarrow> string list \<Rightarrow> string \<Rightarrow> world \<Rightarrow> int \<times> world" where
  "mcp_collect_main srv command args output w =
     (case get_server_schemas srv command args of
        Inl e \<Rightarrow> (exit_status e, w)
      | Inr schemas \<Rightarrow>
          if schemas \<noteq> [] then
            (case save_schemas_to_file schemas output w of
               Inl e \<Rightarrow> (exit_status e, w)
             | Inr w' \<Rightarrow> (0, w'))
          else (0, w))"

text \<open>
  Whether \<open>argparse\<close> reads a text as the value of the option before it: the empty text
  and a text that does not start with \<open>-\<close> are values.
\<close>

definition takes_value :: "world \<Rightarrow> string \<Rightarrow> bool" where
  "takes_value w s =
     (case s of
        [] \<Rightarrow> True
      | c # r \<Rightarrow> if c = CHR ''-'' then dash_value w s else True)"

text \<open>
  The collector process that \<open>collect_api\<close> starts with the options \<open>--command\<close> and
  \<open>--output\<close>: \<open>argparse\<close> ends it with status \<open>2\<close> when an option gets no value; otherwise
  \<open>main\<close> runs with no server arguments.
\<close>

definition collector_process :: "server \<Rightarrow> string \<Rightarrow> string \<Rightarrow> world \<Rightarrow> int \<times> world" where
  "collector_process srv command output w =
     (if takes_value w command \<and> takes_value w output
      then mcp_collect_main srv command [] output w
      else (2, w))"

section \<open>Resolve and collect\<close>

definition collect_api :: "server \<Rightarrow> ProductRecord \<Rightarrow> string \<Rightarrow> world \<Rightarrow> (error + unit) \<times> world" where
  "collect_api srv record output w =
     (case infer_server_command record of
        None \<Rightarrow> (Inl NoLaunchCommandError, w)
      | Some command \<Rightarrow>
          if command = [] then (Inl NoLaunchCommandError, w)
          else
            let cmd = [''mcp_collect.py'', ''--command'', command, ''--output'', output];
                (status, w') = collector_process srv command output (w\<lparr>runs := runs w @ [cmd]\<rparr>)
            in if status \<noteq> 0 then (Inl (CalledProcessError status), w') else (Inr (), w'))"

section \<open>Helper facts\<close>



lemma map_of_dict_set: "map_of (dict_set k v d) = (map_of d)(k \<mapsto> v)"
  by (induction d) (auto simp: fun_eq_iff)

lemma map_of_tool_loop:
  "map_of (foldl (\<lambda>d t. dict_set (name t) (tool_entry t) d) d0 tools) n =
     (case find (\<lambda>t. name t = n) (rev tools) of
        Some t \<Rightarrow> Some (tool_entry t)
      | None \<Rightarrow> map_of d0 n)"
  by (induction tools rule: rev_induct) (auto simp: map_of_dict_set)

lemma find_last_distinct:
  "distinct (map name tools) \<Longrightarrow> t \<in> set tools \<Longrightarrow>
   find (\<lambda>x. name x = name t) (rev tools) = Some t"
proof (induction tools rule: rev_induct)
  case Nil
  then show ?case by simp
next
  case (snoc x xs)
  then show ?case by (auto simp: rev_image_eqI)
qed

section \<open>Command inference: properties\<close>

text \<open>
  Where the claimed rule and the code agree: no path gives no command, a final segment
  without the prefix gives no command, and a final segment that holds the prefix once,
  at its front, gives the alternate prefix followed by the rest of the segment.
\<close>

lemma str_remove_prefix: "p \<noteq> [] \<Longrightarrow> str_remove p (p @ rest) = str_remove p rest"
proof -
  assume p: "p \<noteq> []"
  then obtain c cs where cs: "p @ rest = c # cs" by (cases p) auto
  have "startswith (p @ rest) p" by (auto simp: startswith_append)
  then have "str_remove p (c # cs) = str_remove p (drop (length p) (c # cs))"
    using p cs by simp
  then show ?thesis unfolding cs [symmetric] by simp
qed

lemma str_remove_absent: "split_once p s = None \<Longrightarrow> str_remove p s = s"
  by (induction s) (auto split: if_splits option.splits)

lemma infer_server_command_absent:
  "repo_path record = None \<Longrightarrow> infer_server_command record = None"
  by (simp add: infer_server_command_def)

lemma infer_server_command_other_name:
  "repo_path record = Some rp \<Longrightarrow> \<not> startswith (path_name rp) ''mcp_server_'' \<Longrightarrow>
   infer_server_command record = None"
  by (simp add: infer_server_command_def)

lemma infer_server_command_single_prefix:
  assumes "repo_path record = Some rp"
    and "path_name rp = ''mcp_server_'' @ rest"
    and "split_once ''mcp_server_'' rest = None"
  shows "infer_server_command record = Some (''mcp-server-'' @ rest)"
proof -
  have "rp \<noteq> []" using assms(2) by (auto simp: path_name_def)
  moreover have "startswith (path_name rp) ''mcp_server_''"
    using assms(2) by (simp add: startswith_append)
  moreover have "str_remove ''mcp_server_'' (''mcp_server_'' @ rest) = rest"
    using str_remove_prefix [of "''mcp_server_''" rest] str_remove_absent [OF assms(3)]
    by simp
  ultimately show ?thesis
    using assms(1,2) by (simp add: infer_server_command_def del: str_remove.simps)
qed

text \<open>
  C3. The claim lets \<open>infer\<close> remove the prefix \<open>mcp_server_\<close> once, at the front of the
  final path segment, and keep every other character. \<open>infer_server_command\<close> tests the
  prefix with \<open>startswith\<close> but removes it with \<open>str.replace\<close>, which deletes every
  occurrence: for the path \<open>foo/mcp_server_mcp_server_x\<close> the final segment is
  \<open>mcp_server_mcp_server_x\<close>, the code returns \<open>mcp-server-x\<close>, and the claim's value is
  \<open>mcp-server-mcp_server_x\<close>.
\<close>

theorem infer_server_command_removes_every_occurrence:
  "path_name ''foo/mcp_server_mcp_server_x'' = ''mcp_server_mcp_server_x'' \<and>
   infer_server_command
     \<lparr>group = ''G'', product_name = ''P'', product_short = ''p'',
      repo_path = Some ''foo/mcp_server_mcp_server_x''\<rparr> = Some ''mcp-server-x'' \<and>
   infer_server_command
     \<lparr>group = ''G'', product_name = ''P'', product_short = ''p'',
      repo_path = Some ''foo/mcp_server_mcp_server_x''\<rparr>
     \<noteq> Some (''mcp-server-'' @ drop (length ''mcp_server_'') ''mcp_server_mcp_server_x'')"
  by (simp add: infer_server_command_def path_name_def)

section \<open>Resolve and collect: properties\<close>

text \<open>
  C6. When no command can be inferred for the resolved product, \<open>collect_api\<close> fails
  with \<open>NoLaunchCommandError\<close> and leaves the world as it was: no collector process is
  run, no file is written, and the files hold what they held.
\<close>

theorem collect_api_no_command:
  "infer_server_command record = None \<Longrightarrow>
   collect_api srv record output w = (Inl NoLaunchCommandError, w) \<and>
   runs (snd (collect_api srv record output w)) = runs w \<and>
   written (snd (collect_api srv record output w)) = written w \<and>
   files (snd (collect_api srv record output w)) = files w"
  by (simp add: collect_api_def)

theorem collect_api_no_command_witness:
  "infer_server_command
     \<lparr>group = ''G'', product_name = ''P'', product_short = ''p'',
      repo_path = Some ''foo/other''\<rparr> = None \<and>
   collect_api (\<lambda>c a. Listed [] None)
     \<lparr>group = ''G'', product_name = ''P'', product_short = ''p'',
      repo_path = Some ''foo/other''\<rparr>
     ''mcp_schemas.json''
     \<lparr>files = Map.empty, written = [], runs = [],
      openable = (\<lambda>p. True), dash_value = (\<lambda>s. False)\<rparr>
   = (Inl NoLaunchCommandError, \<lparr>files = Map.empty, written = [], runs = [],
      openable = (\<lambda>p. True), dash_value = (\<lambda>s. False)\<rparr>)"
proof -
  have h: "infer_server_command
     \<lparr>group = ''G'', product_name = ''P'', product_short = ''p'',
      repo_path = Some ''foo/other''\<rparr> = None"
    by (simp add: infer_server_command_def path_name_def)
  from collect_api_no_command [OF h] h show ?thesis by simp
qed




section \<open>The schema collector: properties\<close>

text \<open>
  C2. The claim lets a failed session raise an error to the caller and never return an
  empty mapping in its place. The handler of \<open>get_server_schemas\<close> returns the empty
  mapping: a session that cannot be started, for an error of the \<open>Exception\<close> hierarchy,
  gives \<open>{}\<close>, not an error.
\<close>

theorem get_server_schemas_returns_empty_on_failure:
  "get_server_schemas (\<lambda>c a. Raised (Exception ''connection refused'')) ''mcp-server-ecs'' []
   = Inr []"
  by (simp add: get_server_schemas_def get_server_schemas_run_def session_body_def)

text \<open>
  C2, as the code has it. An error reaches the caller of \<open>get_server_schemas\<close> only when
  the session raises an exception outside the \<open>Exception\<close> hierarchy, and then it is that
  exception. When the session lists its tools and closes, the result is the complete
  mapping: every tool name is a key, bound to the entry of the last tool of that name,
  and there is no other key; nothing is reported. When the session fails with an
  exception of the \<open>Exception\<close> hierarchy, before the tools are listed or while it closes,
  the exception is reported on \<open>sys.stderr\<close> and the result is the empty mapping, never a
  part of the tool list.
\<close>

theorem get_server_schemas_outcomes:
  "(get_server_schemas srv c a = Inl x \<longrightarrow>
      (\<exists>n status. x = BaseException n status) \<and> session_body (srv c a) = Inl x) \<and>
   (srv c a = Listed tools None \<longrightarrow>
      (\<exists>schemas. get_server_schemas srv c a = Inr schemas \<and>
         snd (get_server_schemas_run srv c a) = [] \<and>
         (\<forall>n. map_of schemas n =
                map_option tool_entry (find (\<lambda>t. name t = n) (rev tools))))) \<and>
   (srv c a = Raised (Exception e) \<or> srv c a = Listed tools (Some (Exception e)) \<longrightarrow>
      get_server_schemas srv c a = Inr [] \<and>
      snd (get_server_schemas_run srv c a) = [error_report e]) \<and>
   (srv c a = Raised (BaseException n status) \<or>
    srv c a = Listed tools (Some (BaseException n status)) \<longrightarrow>
      get_server_schemas srv c a = Inl (BaseException n status) \<and>
      snd (get_server_schemas_run srv c a) = [])"
proof -
  have 1: "(\<exists>n status. x = BaseException n status) \<and> session_body (srv c a) = Inl x"
    if "get_server_schemas srv c a = Inl x"
    using that
    by (auto simp: get_server_schemas_def get_server_schemas_run_def
        split: sum.splits exn.splits)
  have m: "map_of (foldl (\<lambda>d t. dict_set (name t) (tool_entry t) d) [] tools) n' =
      map_option tool_entry (find (\<lambda>t. name t = n') (rev tools))" for n'
    by (simp add: map_of_tool_loop split: option.splits)
  have 2: "\<exists>schemas. get_server_schemas srv c a = Inr schemas \<and>
         snd (get_server_schemas_run srv c a) = [] \<and>
         (\<forall>n. map_of schemas n =
                map_option tool_entry (find (\<lambda>t. name t = n) (rev tools)))"
    if "srv c a = Listed tools None"
    using that m
    by (simp add: get_server_schemas_def get_server_schemas_run_def session_body_def)
  have 3: "get_server_schemas srv c a = Inr [] \<and>
      snd (get_server_schemas_run srv c a) = [error_report e]"
    if "srv c a = Raised (Exception e) \<or> srv c a = Listed tools (Some (Exception e))"
    using that
    by (auto simp: get_server_schemas_def get_server_schemas_run_def session_body_def)
  have 4: "get_server_schemas srv c a = Inl (BaseException n status) \<and>
      snd (get_server_schemas_run srv c a) = []"
    if "srv c a = Raised (BaseException n status) \<or>
        srv c a = Listed tools (Some (BaseException n status))"
    using that
    by (auto simp: get_server_schemas_def get_server_schemas_run_def session_body_def)
  from 1 2 3 4 show ?thesis by blast
qed

theorem get_server_schemas_outcomes_witness:
  "get_server_schemas
     (\<lambda>c a. Listed [\<lparr>name = ''list_servers'', description = Some ''List servers'',
                       inputSchema = None, parameters = None\<rparr>] None)
     ''mcp-server-ecs'' []
   = Inr [(''list_servers'', JObj [(''description'', JStr ''List servers''), (''inputSchema'', JNull)])] \<and>
   get_server_schemas_run (\<lambda>c a. Raised (Exception ''connection refused'')) ''mcp-server-ecs'' []
   = (Inr [], [error_report ''connection refused'']) \<and>
   get_server_schemas_run
     (\<lambda>c a. Listed [\<lparr>name = ''list_servers'', description = Some ''List servers'',
                       inputSchema = None, parameters = None\<rparr>] (Some (Exception ''broken pipe'')))
     ''mcp-server-ecs'' []
   = (Inr [], [error_report ''broken pipe'']) \<and>
   get_server_schemas_run
     (\<lambda>c a. Raised (BaseException ''KeyboardInterrupt'' 130)) ''mcp-server-ecs'' []
   = (Inl (BaseException ''KeyboardInterrupt'' 130), [])"
proof -
  let ?t = "\<lparr>name = ''list_servers'', description = Some ''List servers'',
                       inputSchema = None, parameters = None\<rparr>"
  have 1: "get_server_schemas (\<lambda>c a. Listed [?t] None) ''mcp-server-ecs'' []
   = Inr [(''list_servers'', JObj [(''description'', JStr ''List servers''), (''inputSchema'', JNull)])]"
    by (simp add: get_server_schemas_def get_server_schemas_run_def session_body_def
        tool_entry_def has_input_schema_def descr_json_def)
  from get_server_schemas_outcomes
    [where srv = "\<lambda>c a. Raised (Exception ''connection refused'')" and c = "''mcp-server-ecs''"
       and a = "[]" and e = "''connection refused''"]
  have 2: "get_server_schemas_run (\<lambda>c a. Raised (Exception ''connection refused''))
      ''mcp-server-ecs'' [] = (Inr [], [error_report ''connection refused''])"
    by (simp add: get_server_schemas_def prod_eq_iff)
  from get_server_schemas_outcomes
    [where srv = "\<lambda>c a. Listed [?t] (Some (Exception ''broken pipe''))" and c = "''mcp-server-ecs''"
       and a = "[]" and e = "''broken pipe''" and tools = "[?t]"]
  have 3: "get_server_schemas_run (\<lambda>c a. Listed [?t] (Some (Exception ''broken pipe'')))
      ''mcp-server-ecs'' [] = (Inr [], [error_report ''broken pipe''])"
    by (simp add: get_server_schemas_def prod_eq_iff)
  from get_server_schemas_outcomes
    [where srv = "\<lambda>c a. Raised (BaseException ''KeyboardInterrupt'' 130)"
       and c = "''mcp-server-ecs''" and a = "[]" and n = "''KeyboardInterrupt''" and status = 130]
  have 4: "get_server_schemas_run (\<lambda>c a. Raised (BaseException ''KeyboardInterrupt'' 130))
      ''mcp-server-ecs'' [] = (Inl (BaseException ''KeyboardInterrupt'' 130), [])"
    by (simp add: get_server_schemas_def prod_eq_iff)
  from 1 2 3 4 show ?thesis by simp
qed

text \<open>
  C8. The claim lets the entry of a tool have no \<open>parameters\<close> field when the tool object
  has no such attribute. For a tool with an input schema the code stores
  \<open>getattr(tool, 'parameters', {})\<close>: the field is present, with the default \<open>{}\<close>.
\<close>

theorem parameters_default_when_not_exposed:
  "get_server_schemas
     (\<lambda>c a. Listed [\<lparr>name = ''list_buckets'', description = Some ''List buckets'',
                       inputSchema = Some (JObj [(''type'', JStr ''object'')]),
                       parameters = None\<rparr>] None)
     ''mcp-server-obs'' []
   = Inr [(''list_buckets'',
           JObj [(''description'', JStr ''List buckets''),
                 (''inputSchema'', JObj [(''type'', JStr ''object'')]),
                 (''parameters'', JObj [])])]"
  by (simp add: get_server_schemas_def get_server_schemas_run_def session_body_def tool_entry_def has_input_schema_def
        descr_json_def)

text \<open>
  C8, as the code has it. For every tool of a response whose tool names are distinct,
  the persisted entry has a \<open>parameters\<close> field exactly when the tool has an input schema
  that is true in Python's sense (present, not \<open>None\<close>, not empty); the field holds the
  tool's \<open>parameters\<close> attribute when there is one and \<open>{}\<close> otherwise. \<open>inputSchema\<close> is
  the tool's schema in that case and null in every other.
\<close>

theorem persisted_entry_fields:
  assumes "srv c a = Listed tools None"
    and "distinct (map name tools)"
    and "tool \<in> set tools"
  shows "\<exists>schemas fields.
           get_server_schemas srv c a = Inr schemas \<and>
           map_of schemas (name tool) = Some (JObj fields) \<and>
           map_of fields ''parameters'' =
             (if has_input_schema tool
              then Some (case parameters tool of Some p \<Rightarrow> p | None \<Rightarrow> JObj [])
              else None) \<and>
           map_of fields ''inputSchema'' =
             Some (case inputSchema tool of
                     Some s \<Rightarrow> if truthy s then s else JNull
                   | None \<Rightarrow> JNull) \<and>
           (map_of fields ''inputSchema'' = Some JNull \<longleftrightarrow> \<not> has_input_schema tool)"
proof -
  let ?schemas = "foldl (\<lambda>d t. dict_set (name t) (tool_entry t) d) [] tools"
  have g: "get_server_schemas srv c a = Inr ?schemas"
    using assms(1) by (simp add: get_server_schemas_def get_server_schemas_run_def session_body_def)
  have m: "map_of ?schemas (name tool) = Some (tool_entry tool)"
    using find_last_distinct [OF assms(2,3)] by (simp add: map_of_tool_loop)
  show ?thesis
  proof (cases "has_input_schema tool")
    case True
    then obtain s where s: "inputSchema tool = Some s" "truthy s"
      by (auto simp: has_input_schema_def split: option.splits)
    then have "s \<noteq> JNull" by auto
    with g m True s show ?thesis
      by (simp add: tool_entry_def)
  next
    case False
    then have "(case inputSchema tool of Some s \<Rightarrow> if truthy s then s else JNull | None \<Rightarrow> JNull) = JNull"
      by (auto simp: has_input_schema_def split: option.splits)
    with g m False show ?thesis
      by (simp add: tool_entry_def)
  qed
qed

theorem persisted_entry_fields_witness:
  "distinct (map name
     [\<lparr>name = ''list_buckets'', description = Some ''List buckets'',
        inputSchema = Some (JObj [(''type'', JStr ''object'')]), parameters = None\<rparr>,
      \<lparr>name = ''ping'', description = None,
        inputSchema = Some (JObj []), parameters = Some (JObj [(''x'', JInt 1)])\<rparr>]) \<and>
   \<lparr>name = ''ping'', description = None,
     inputSchema = Some (JObj []), parameters = Some (JObj [(''x'', JInt 1)])\<rparr>
   \<in> set [\<lparr>name = ''list_buckets'', description = Some ''List buckets'',
             inputSchema = Some (JObj [(''type'', JStr ''object'')]), parameters = None\<rparr>,
           \<lparr>name = ''ping'', description = None,
             inputSchema = Some (JObj []), parameters = Some (JObj [(''x'', JInt 1)])\<rparr>] \<and>
   (\<exists>schemas fields.
      get_server_schemas
        (\<lambda>c a. Listed
           [\<lparr>name = ''list_buckets'', description = Some ''List buckets'',
              inputSchema = Some (JObj [(''type'', JStr ''object'')]), parameters = None\<rparr>,
            \<lparr>name = ''ping'', description = None,
              inputSchema = Some (JObj []), parameters = Some (JObj [(''x'', JInt 1)])\<rparr>] None)
        ''mcp-server-obs'' [] = Inr schemas \<and>
      map_of schemas ''ping'' = Some (JObj fields) \<and>
      map_of fields ''parameters'' = None \<and>
      map_of fields ''inputSchema'' = Some JNull)"
proof -
  let ?t1 = "\<lparr>name = ''list_buckets'', description = Some ''List buckets'',
        inputSchema = Some (JObj [(''type'', JStr ''object'')]), parameters = None\<rparr>"
  let ?t2 = "\<lparr>name = ''ping'', description = None,
        inputSchema = Some (JObj []), parameters = Some (JObj [(''x'', JInt 1)])\<rparr>"
  have d: "distinct (map name [?t1, ?t2])" by simp
  have m: "?t2 \<in> set [?t1, ?t2]" by simp
  have s: "(\<lambda>c a. Listed [?t1, ?t2] None) ''mcp-server-obs'' [] = Listed [?t1, ?t2] None"
    by simp
  from persisted_entry_fields [of "\<lambda>c a. Listed [?t1, ?t2] None", OF s d m] d m
  show ?thesis by (simp add: has_input_schema_def)
qed

text \<open>
  C10. When the mapping that \<open>get_server_schemas\<close> returns is empty, \<open>main\<close> of
  \<open>mcp_collect.py\<close> leaves the world as it was, so no file is written and the output
  file keeps its document; this is so when a failure of the session was absorbed. A
  write happens only for a mapping that is not empty; a failure that is not absorbed
  leaves the world as it was, too.
\<close>

theorem main_empty_no_write:
  "(get_server_schemas srv command args = Inr [] \<longrightarrow>
      mcp_collect_main srv command args output w = (0, w)) \<and>
   (session_body (srv command args) = Inl (Exception e) \<longrightarrow>
      get_server_schemas srv command args = Inr [] \<and>
      mcp_collect_main srv command args output w = (0, w)) \<and>
   (written (snd (mcp_collect_main srv command args output w)) \<noteq> written w \<longrightarrow>
      (\<exists>schemas. get_server_schemas srv command args = Inr schemas \<and> schemas \<noteq> [])) \<and>
   (get_server_schemas srv command args = Inl x \<longrightarrow>
      mcp_collect_main srv command args output w = (exit_status x, w))"
  by (auto simp: mcp_collect_main_def get_server_schemas_def get_server_schemas_run_def
      save_schemas_to_file_def split: sum.splits exn.splits if_splits)

theorem main_empty_no_write_witness:
  "get_server_schemas (\<lambda>c a. Raised (Exception ''connection refused'')) ''mcp-server-ecs'' [] = Inr [] \<and>
   session_body (Raised (Exception ''connection refused'')) = Inl (Exception ''connection refused'') \<and>
   mcp_collect_main (\<lambda>c a. Raised (Exception ''connection refused'')) ''mcp-server-ecs'' [] ''mcp_schemas.json''
     \<lparr>files = [''mcp_schemas.json'' \<mapsto> JObj [(''old'', JNull)]], written = [], runs = [],
      openable = (\<lambda>p. True), dash_value = (\<lambda>s. False)\<rparr>
   = (0, \<lparr>files = [''mcp_schemas.json'' \<mapsto> JObj [(''old'', JNull)]], written = [], runs = [],
      openable = (\<lambda>p. True), dash_value = (\<lambda>s. False)\<rparr>) \<and>
   written (snd (mcp_collect_main
      (\<lambda>c a. Listed [\<lparr>name = ''list_servers'', description = Some ''List servers'',
                        inputSchema = None, parameters = None\<rparr>] None)
      ''mcp-server-ecs'' [] ''mcp_schemas.json''
      \<lparr>files = Map.empty, written = [], runs = [],
      openable = (\<lambda>p. True), dash_value = (\<lambda>s. False)\<rparr>)) \<noteq> [] \<and>
   get_server_schemas
      (\<lambda>c a. Listed [\<lparr>name = ''list_servers'', description = Some ''List servers'',
                        inputSchema = None, parameters = None\<rparr>] None)
      ''mcp-server-ecs'' [] \<noteq> Inr []"
proof -
  have b: "session_body (Raised (Exception ''connection refused'')) = Inl (Exception ''connection refused'')"
    by (simp add: session_body_def)
  have w: "written (snd (mcp_collect_main
      (\<lambda>c a. Listed [\<lparr>name = ''list_servers'', description = Some ''List servers'',
                        inputSchema = None, parameters = None\<rparr>] None)
      ''mcp-server-ecs'' [] ''mcp_schemas.json''
      \<lparr>files = Map.empty, written = [], runs = [],
      openable = (\<lambda>p. True), dash_value = (\<lambda>s. False)\<rparr>)) \<noteq> []"
    by (simp add: mcp_collect_main_def get_server_schemas_def session_body_def
        get_server_schemas_run_def save_schemas_to_file_def)
  from main_empty_no_write
    [of "\<lambda>c a. Raised (Exception ''connection refused'')" "''mcp-server-ecs''" "[]"
        "''mcp_schemas.json''"
        "\<lparr>files = [''mcp_schemas.json'' \<mapsto> JObj [(''old'', JNull)]], written = [], runs = [],
      openable = (\<lambda>p. True), dash_value = (\<lambda>s. False)\<rparr>"
        "''connection refused''"]
    main_empty_no_write
    [of "\<lambda>c a. Listed [\<lparr>name = ''list_servers'', description = Some ''List servers'',
                        inputSchema = None, parameters = None\<rparr>] None"
        "''mcp-server-ecs''" "[]" "''mcp_schemas.json''"
        "\<lparr>files = Map.empty, written = [], runs = [],
      openable = (\<lambda>p. True), dash_value = (\<lambda>s. False)\<rparr>"]
    b w
  show ?thesis by auto
qed

section \<open>The hierarchy index: properties\<close>

text \<open>
  C4. The claim gives an exact match of \<open>productName\<close> priority over every match of
  \<open>productShort\<close>: a record whose name is the query is returned even when an earlier
  record matches by its alias. \<open>find_product\<close> makes one pass and tests both conditions
  on each record, so the earlier record wins. Below, the second record is named \<open>ECS\<close>
  and the query \<open>ECS\<close> returns the first, whose alias is \<open>ecs\<close>.
\<close>

theorem find_product_prefers_earlier_alias:
  "find_product (\<lambda>s. s)
     [(''Compute'',
       [\<lparr>group = ''Compute'', product_name = ''Elastic Cloud Server'', product_short = ''ecs'',
          repo_path = None\<rparr>,
        \<lparr>group = ''Compute'', product_name = ''ECS'', product_short = ''ecs2'',
          repo_path = None\<rparr>])]
     ''Compute'' ''ECS''
   = Inr \<lparr>group = ''Compute'', product_name = ''Elastic Cloud Server'', product_short = ''ecs'',
          repo_path = None\<rparr>"
  by code_simp

text \<open>
  C4, as the code has it, for every case mapping \<open>lw\<close> of texts outside ASCII.
  \<open>find_product\<close> returns the first record of the group, in insertion order, whose
  \<open>productName\<close> equals the query exactly or whose \<open>productShort\<close> equals it after
  \<open>str.lower\<close> on both; no earlier record matches in either way. It fails, with
  \<open>UnknownProductError\<close> and no other error, exactly when no record of the group matches
  in either way.
\<close>

theorem find_product_first_match:
  "(find_product lw h group_name product = Inr item \<longleftrightarrow>
      (\<exists>i < length (hierarchy_get h group_name).
          hierarchy_get h group_name ! i = item \<and>
          (product_name item = product \<or> lower lw (product_short item) = lower lw product) \<and>
          (\<forall>j < i. product_name (hierarchy_get h group_name ! j) \<noteq> product \<and>
                    lower lw (product_short (hierarchy_get h group_name ! j)) \<noteq> lower lw product))) \<and>
   (find_product lw h group_name product = Inl e \<longleftrightarrow>
      e = UnknownProductError \<and>
      (\<forall>x \<in> set (hierarchy_get h group_name).
          product_name x \<noteq> product \<and> lower lw (product_short x) \<noteq> lower lw product))"
proof -
  let ?items = "hierarchy_get h group_name"
  let ?P = "product_matches lw product"
  have 1: "find_product lw h group_name product = Inr item \<longleftrightarrow> find ?P ?items = Some item"
    by (simp add: find_product_def split: option.splits)
  have 2: "find_product lw h group_name product = Inl e \<longleftrightarrow>
             e = UnknownProductError \<and> find ?P ?items = None"
    by (auto simp: find_product_def split: option.splits)
  show ?thesis
    unfolding 1 2 find_Some_iff find_None_iff
    by (auto simp: product_matches_def)
qed

theorem find_product_first_match_witness:
  "find_product (\<lambda>s. s)
     [(''Compute'',
       [\<lparr>group = ''Compute'', product_name = ''Elastic Cloud Server'', product_short = ''ECS'',
          repo_path = None\<rparr>,
        \<lparr>group = ''Compute'', product_name = ''Bare Metal Server'', product_short = ''BMS'',
          repo_path = None\<rparr>])]
     ''Compute'' ''bms''
   = Inr \<lparr>group = ''Compute'', product_name = ''Bare Metal Server'', product_short = ''BMS'',
          repo_path = None\<rparr> \<and>
   find_product (\<lambda>s. s)
     [(''Compute'',
       [\<lparr>group = ''Compute'', product_name = ''Elastic Cloud Server'', product_short = ''ECS'',
          repo_path = None\<rparr>,
        \<lparr>group = ''Compute'', product_name = ''Bare Metal Server'', product_short = ''BMS'',
          repo_path = None\<rparr>])]
     ''Compute'' ''bare metal server''
   = Inl UnknownProductError"
proof -
  let ?r1 = "\<lparr>group = ''Compute'', product_name = ''Elastic Cloud Server'', product_short = ''ECS'',
          repo_path = None\<rparr>"
  let ?r2 = "\<lparr>group = ''Compute'', product_name = ''Bare Metal Server'', product_short = ''BMS'',
          repo_path = None\<rparr>"
  let ?h = "[(''Compute'', [?r1, ?r2])]"
  have items: "hierarchy_get ?h ''Compute'' = [?r1, ?r2]"
    by (simp add: hierarchy_get_def)
  have l1: "lower (\<lambda>s. s) ''BMS'' = lower (\<lambda>s. s) ''bms''" "lower (\<lambda>s. s) ''ECS'' \<noteq> lower (\<lambda>s. s) ''bms''"
    by code_simp+
  have l2: "lower (\<lambda>s. s) ''BMS'' \<noteq> lower (\<lambda>s. s) ''bare metal server''"
    "lower (\<lambda>s. s) ''ECS'' \<noteq> lower (\<lambda>s. s) ''bare metal server''"
    by code_simp+
  have a: "\<exists>i < length (hierarchy_get ?h ''Compute'').
          hierarchy_get ?h ''Compute'' ! i = ?r2 \<and>
          (product_name ?r2 = ''bms'' \<or> lower (\<lambda>s. s) (product_short ?r2) = lower (\<lambda>s. s) ''bms'') \<and>
          (\<forall>j < i. product_name (hierarchy_get ?h ''Compute'' ! j) \<noteq> ''bms'' \<and>
                    lower (\<lambda>s. s) (product_short (hierarchy_get ?h ''Compute'' ! j)) \<noteq> lower (\<lambda>s. s) ''bms'')"
    unfolding items using l1 by (intro exI [of _ 1]) simp
  have b: "\<forall>x \<in> set (hierarchy_get ?h ''Compute'').
          product_name x \<noteq> ''bare metal server'' \<and>
          lower (\<lambda>s. s) (product_short x) \<noteq> lower (\<lambda>s. s) ''bare metal server''"
    unfolding items using l2 by simp
  from find_product_first_match [of "\<lambda>s. s" ?h "''Compute''" "''bms''" ?r2] a
  have 1: "find_product (\<lambda>s. s) ?h ''Compute'' ''bms'' = Inr ?r2" by blast
  from find_product_first_match
    [of "\<lambda>s. s" ?h "''Compute''" "''bare metal server''" _ UnknownProductError] b
  have 2: "find_product (\<lambda>s. s) ?h ''Compute'' ''bare metal server'' = Inl UnknownProductError" by blast
  from 1 2 show ?thesis by simp
qed

section \<open>The catalog parser: properties\<close>

subsection \<open>Finding the table\<close>

lemma split_once_Some: "split_once p s = Some (a, b) \<Longrightarrow> s = a @ p @ b"
proof (induction s arbitrary: a b)
  case Nil
  then show ?case by (simp split: if_splits)
next
  case (Cons c cs)
  show ?case
  proof (cases "startswith (c # cs) p")
    case True
    with Cons.prems have ab: "a = []" "b = drop (length p) (c # cs)" by auto
    from True obtain r where "c # cs = p @ r" by (auto simp: startswith_append)
    with ab show ?thesis by simp
  next
    case False
    with Cons.prems obtain a' where "split_once p cs = Some (a', b)" "a = c # a'"
      by (auto split: option.splits)
    with Cons.IH show ?thesis by fastforce
  qed
qed

lemma split_once_occurs: "split_once p (a @ p @ b) \<noteq> None"
proof (induction a)
  case Nil
  show ?case
  proof (cases "p @ b")
    case Nil
    then show ?thesis by simp
  next
    case (Cons c cs)
    have "startswith (p @ b) p" by (auto simp: startswith_append)
    with Cons show ?thesis by simp
  qed
next
  case (Cons c a)
  then show ?case by (auto split: option.splits)
qed

lemma split_once_None_iff: "split_once p s = None \<longleftrightarrow> \<not> (\<exists>a b. s = a @ p @ b)"
proof
  assume "split_once p s = None"
  then show "\<not> (\<exists>a b. s = a @ p @ b)" using split_once_occurs by blast
next
  assume n: "\<not> (\<exists>a b. s = a @ p @ b)"
  show "split_once p s = None"
  proof (rule ccontr)
    assume "split_once p s \<noteq> None"
    then obtain a b where "split_once p s = Some (a, b)" by auto
    then have "s = a @ p @ b" by (rule split_once_Some)
    with n show False by blast
  qed
qed

lemma table_match_Some:
  "table_match s = Some t \<Longrightarrow> \<exists>mid post. t = ''<table'' @ mid @ ''</table>'' \<and> s = t @ post"
proof -
  assume h: "table_match s = Some t"
  then have sw: "startswith s ''<table''"
    by (simp add: table_match_def split: if_splits)
  then obtain r where r: "s = ''<table'' @ r" by (auto simp: startswith_append)
  then have d: "drop 6 s = r" by simp
  from h sw d obtain mid rest where sp: "split_once ''</table>'' r = Some (mid, rest)"
    and t: "t = ''<table'' @ mid @ ''</table>''"
    by (auto simp: table_match_def split: option.splits)
  from split_once_Some [OF sp] r t show ?thesis by auto
qed

lemma table_match_occurs: "table_match (''<table'' @ mid @ ''</table>'' @ post) \<noteq> None"
proof -
  have "split_once ''</table>'' (mid @ ''</table>'' @ post) \<noteq> None"
    by (rule split_once_occurs)
  then show ?thesis
    by (auto simp: table_match_def split: option.splits)
qed

lemma table_search_Some:
  "table_search s = Some t \<Longrightarrow>
   \<exists>pre mid post. t = ''<table'' @ mid @ ''</table>'' \<and> s = pre @ t @ post"
proof (induction s)
  case Nil
  then show ?case by simp
next
  case (Cons c cs)
  show ?case
  proof (cases "table_match (c # cs)")
    case None
    with Cons.prems have "table_search cs = Some t" by simp
    from Cons.IH [OF this] obtain pre mid post
      where "t = ''<table'' @ mid @ ''</table>''" "cs = pre @ t @ post" by blast
    then have "t = ''<table'' @ mid @ ''</table>'' \<and> c # cs = (c # pre) @ t @ post" by simp
    then show ?thesis by blast
  next
    case (Some u)
    with Cons.prems have "u = t" by simp
    with Some table_match_Some [of "c # cs" t] obtain mid post
      where "t = ''<table'' @ mid @ ''</table>''" "c # cs = t @ post" by blast
    then have "t = ''<table'' @ mid @ ''</table>'' \<and> c # cs = [] @ t @ post" by simp
    then show ?thesis by blast
  qed
qed

lemma table_search_occurs:
  "table_search (pre @ ''<table'' @ mid @ ''</table>'' @ post) \<noteq> None"
proof (induction pre)
  case Nil
  have "table_match (''<table'' @ mid @ ''</table>'' @ post) \<noteq> None"
    by (rule table_match_occurs)
  then obtain t where t: "table_match (''<table'' @ mid @ ''</table>'' @ post) = Some t" by auto
  obtain c cs where cs: "''<table'' @ mid @ ''</table>'' @ post = c # cs" by simp
  from t show ?case unfolding append_Nil cs by simp
next
  case (Cons c pre)
  then show ?case by (auto split: option.splits)
qed

lemma table_search_None_iff:
  "table_search s = None \<longleftrightarrow>
   \<not> (\<exists>pre mid post. s = pre @ ''<table'' @ mid @ ''</table>'' @ post)"
proof
  assume "table_search s = None"
  then show "\<not> (\<exists>pre mid post. s = pre @ ''<table'' @ mid @ ''</table>'' @ post)"
    using table_search_occurs by blast
next
  assume n: "\<not> (\<exists>pre mid post. s = pre @ ''<table'' @ mid @ ''</table>'' @ post)"
  show "table_search s = None"
  proof (rule ccontr)
    assume "table_search s \<noteq> None"
    then obtain t where "table_search s = Some t" by auto
    from table_search_Some [OF this] obtain pre mid post
      where "t = ''<table'' @ mid @ ''</table>''" "s = pre @ t @ post" by blast
    then have "s = pre @ ''<table'' @ mid @ ''</table>'' @ post" by simp
    with n show False by blast
  qed
qed

lemma extract_loop_no_product_rows:
  "\<forall>row \<in> set rows. length (td_findall nd row) \<noteq> 2 \<and> length (td_findall nd row) \<noteq> 3 \<Longrightarrow>
   extract_loop nd cg acc rows = acc"
  by (induction rows arbitrary: cg acc) (auto simp: row_step_def cleaned_cells_def Let_def)

text \<open>
  C7. \<open>load_hierarchy\<close> fails with \<open>CatalogFormatError\<close> exactly when the document has no
  region that opens with \<open><table\<close> and closes with \<open></table>\<close>, and it fails with no
  other error. When the table found has no row of two or three cells, the record sequence
  and the hierarchy are empty and \<open>list_groups\<close> lists no group; nothing fails.
\<close>

theorem load_hierarchy_fails_iff_no_table:
  "(load_hierarchy nd content = Inl CatalogFormatError \<longleftrightarrow>
      \<not> (\<exists>pre mid post. content = pre @ ''<table'' @ mid @ ''</table>'' @ post)) \<and>
   (load_hierarchy nd content = Inl e \<longrightarrow> e = CatalogFormatError) \<and>
   (table_search content = Some table_html \<and>
    (\<forall>row \<in> set (tr_findall table_html).
        length (td_findall nd row) \<noteq> 2 \<and> length (td_findall nd row) \<noteq> 3) \<longrightarrow>
      extract_rows nd table_html = [] \<and>
      load_hierarchy nd content = Inr [] \<and>
      list_groups [] = [])"
proof -
  have 1: "load_hierarchy nd content = Inl CatalogFormatError \<longleftrightarrow> table_search content = None"
    by (simp add: load_hierarchy_def split: option.splits)
  have 2: "load_hierarchy nd content = Inl e \<longrightarrow> e = CatalogFormatError"
    by (simp add: load_hierarchy_def split: option.splits)
  have 3: "extract_rows nd table_html = []"
    if "\<forall>row \<in> set (tr_findall table_html).
          length (td_findall nd row) \<noteq> 2 \<and> length (td_findall nd row) \<noteq> 3"
    using that by (simp add: extract_rows_def extract_loop_no_product_rows)
  have 4: "list_groups [] = []"
    by (simp add: list_groups_def)
  from 1 2 3 4 show ?thesis
    by (simp add: table_search_None_iff load_hierarchy_def)
qed

theorem load_hierarchy_fails_iff_no_table_witness:
  "load_hierarchy (\<lambda>s. False) ''# Products: see the table element'' = Inl CatalogFormatError \<and>
   \<not> (\<exists>pre mid post.
         ''# Products: see the table element'' = pre @ ''<table'' @ mid @ ''</table>'' @ post) \<and>
   table_search ''# Products <table><tr><th>Name</th></tr><tr><td>none yet</td></tr></table> end''
     = Some ''<table><tr><th>Name</th></tr><tr><td>none yet</td></tr></table>'' \<and>
   tr_findall ''<table><tr><th>Name</th></tr><tr><td>none yet</td></tr></table>''
     = [''<th>Name</th>'', ''<td>none yet</td>''] \<and>
   td_findall (\<lambda>s. False) ''<th>Name</th>'' = [] \<and>
   td_findall (\<lambda>s. False) ''<td>none yet</td>'' = [''none yet''] \<and>
   extract_rows (\<lambda>s. False) ''<table><tr><th>Name</th></tr><tr><td>none yet</td></tr></table>'' = [] \<and>
   load_hierarchy (\<lambda>s. False) ''# Products <table><tr><th>Name</th></tr><tr><td>none yet</td></tr></table> end''
     = Inr [] \<and>
   list_groups [] = []"
proof -
  let ?doc = "''# Products <table><tr><th>Name</th></tr><tr><td>none yet</td></tr></table> end''"
  let ?t = "''<table><tr><th>Name</th></tr><tr><td>none yet</td></tr></table>''"
  have a: "load_hierarchy (\<lambda>s. False) ''# Products: see the table element'' = Inl CatalogFormatError"
    by code_simp
  have b: "table_search ?doc = Some ?t"
    by code_simp
  have c: "tr_findall ?t = [''<th>Name</th>'', ''<td>none yet</td>'']"
    by code_simp
  have d: "td_findall (\<lambda>s. False) ''<th>Name</th>'' = []" "td_findall (\<lambda>s. False) ''<td>none yet</td>'' = [''none yet'']"
    by code_simp+
  from c d have e: "\<forall>row \<in> set (tr_findall ?t).
      length (td_findall (\<lambda>s. False) row) \<noteq> 2 \<and> length (td_findall (\<lambda>s. False) row) \<noteq> 3" by simp
  from load_hierarchy_fails_iff_no_table
    [of "\<lambda>s. False" "''# Products: see the table element''"] a
  have 1: "\<not> (\<exists>pre mid post.
         ''# Products: see the table element'' = pre @ ''<table'' @ mid @ ''</table>'' @ post)"
    by blast
  from load_hierarchy_fails_iff_no_table [of "\<lambda>s. False" ?doc _ ?t] b e
  have 2: "extract_rows (\<lambda>s. False) ?t = [] \<and> load_hierarchy (\<lambda>s. False) ?doc = Inr [] \<and> list_groups [] = []"
    by blast
  from a 1 b c d 2 show ?thesis by blast
qed

subsection \<open>The row loop\<close>

text \<open>
  Cells and tags outside ASCII: an ideographic space (U+3000) and a no-break space
  (U+00A0) are stripped, so a first cell that holds only an ideographic space is empty;
  a \<open>rowspan\<close> written with the fullwidth digit two (U+FF12) opens a cell exactly when
  the table \<open>nd\<close> has that digit.
\<close>

lemma strip_unicode_whitespace:
  "strip ([CHR 0xE3, CHR 0x80, CHR 0x80] @ '' A b '' @ [CHR 0xC2, CHR 0xA0]) = ''A b''"
  by code_simp

lemma cleaned_cells_ideographic_space:
  "cleaned_cells nd (''<td>'' @ [CHR 0xE3, CHR 0x80, CHR 0x80] @ ''</td><td>A</td><td>a</td>'')
   = [[], ''A'', ''a'']"
  by code_simp

lemma td_findall_fullwidth_rowspan:
  "td_findall (\<lambda>s. s = [CHR 0xEF, CHR 0xBC, CHR 0x92])
     (''<td rowspan='' @ [CHR 0x22, CHR 0xEF, CHR 0xBC, CHR 0x92, CHR 0x22] @
      ''>G</td><td>B</td><td>b</td>'')
   = [''G'', ''B'', ''b''] \<and>
   td_findall (\<lambda>s. False)
     (''<td rowspan='' @ [CHR 0x22, CHR 0xEF, CHR 0xBC, CHR 0x92, CHR 0x22] @
      ''>G</td><td>B</td><td>b</td>'')
   = [''B'', ''b'']"
  by code_simp

lemma cleaned_cells_length: "length (cleaned_cells nd row) = length (td_findall nd row)"
  by (simp add: cleaned_cells_def)

lemma ungrouped_nonempty: "ungrouped \<noteq> []"
  by (simp add: ungrouped_def)

lemma row_step_three:
  "length (cleaned_cells nd row) = 3 \<Longrightarrow>
   row_step nd cg row =
     (Some (cleaned_cells nd row ! 0),
      Some \<lparr>group = (if cleaned_cells nd row ! 0 \<noteq> [] then cleaned_cells nd row ! 0 else ungrouped),
            product_name = cleaned_cells nd row ! 1,
            product_short = cleaned_cells nd row ! 2,
            repo_path = row_repo_path row\<rparr>)"
  using cleaned_cells_length [of nd row]
  by (auto simp: row_step_def Let_def group_or_default_def)

lemma row_step_two_inherit:
  "length (cleaned_cells nd row) = 2 \<Longrightarrow> g \<noteq> [] \<Longrightarrow>
   row_step nd (Some g) row =
     (Some g,
      Some \<lparr>group = g,
            product_name = cleaned_cells nd row ! 0,
            product_short = cleaned_cells nd row ! 1,
            repo_path = row_repo_path row\<rparr>)"
  using cleaned_cells_length [of nd row]
  by (auto simp: row_step_def Let_def group_or_default_def str_truthy_def)

lemma row_step_skip:
  "length (cleaned_cells nd row) \<noteq> 3 \<Longrightarrow>
   length (cleaned_cells nd row) \<noteq> 2 \<or> \<not> str_truthy cg \<Longrightarrow>
   row_step nd cg row = (cg, None)"
  by (auto simp: row_step_def Let_def)

lemma extract_loop_two_cell_run:
  "g \<noteq> [] \<Longrightarrow> \<forall>row \<in> set rows. length (cleaned_cells nd row) = 2 \<Longrightarrow>
   extract_loop nd (Some g) acc (rows @ rest) =
     extract_loop nd (Some g)
       (acc @ map (\<lambda>row. \<lparr>group = g,
                           product_name = cleaned_cells nd row ! 0,
                           product_short = cleaned_cells nd row ! 1,
                           repo_path = row_repo_path row\<rparr>) rows)
       rest"
  by (induction rows arbitrary: acc) (simp_all add: row_step_two_inherit)

lemma extract_loop_no_context:
  "\<forall>row \<in> set rows. \<not> (length (cleaned_cells nd row) = 3 \<and> cleaned_cells nd row ! 0 \<noteq> []) \<Longrightarrow>
   extract_loop nd (Some []) acc (rows @ rest) =
     extract_loop nd (Some [])
       (acc @ map (\<lambda>row. \<lparr>group = ungrouped,
                           product_name = cleaned_cells nd row ! 1,
                           product_short = cleaned_cells nd row ! 2,
                           repo_path = row_repo_path row\<rparr>)
                (filter (\<lambda>row. length (cleaned_cells nd row) = 3) rows))
       rest"
proof (induction rows arbitrary: acc)
  case Nil
  then show ?case by simp
next
  case (Cons row rows)
  show ?case
  proof (cases "length (cleaned_cells nd row) = 3")
    case True
    with Cons.prems have e: "cleaned_cells nd row ! 0 = []" by simp
    from Cons.prems have "\<forall>row \<in> set rows.
        \<not> (length (cleaned_cells nd row) = 3 \<and> cleaned_cells nd row ! 0 \<noteq> [])" by simp
    from Cons.IH [OF this] True e show ?thesis
      by (simp add: row_step_three)
  next
    case False
    then have "row_step nd (Some []) row = (Some [], None)"
      by (intro row_step_skip) (simp_all add: str_truthy_def)
    moreover from Cons.prems have "\<forall>row \<in> set rows.
        \<not> (length (cleaned_cells nd row) = 3 \<and> cleaned_cells nd row ! 0 \<noteq> [])" by simp
    ultimately show ?thesis using Cons.IH False by simp
  qed
qed

text \<open>
  C5. The claim gives \<open>n + 1\<close> records, all with the group of the first cell, for every
  table of one three-cell row and \<open>n\<close> two-cell rows. When the first cell is empty after
  stripping, the two-cell rows are skipped and the one record has the fallback group:
  below, two rows give one record.
\<close>

theorem empty_group_cell_breaks_run:
  "tr_findall ''<table><tr><td></td><td>A</td><td>a</td></tr><tr><td>B</td><td>b</td></tr></table>''
     = [''<td></td><td>A</td><td>a</td>'', ''<td>B</td><td>b</td>''] \<and>
   cleaned_cells (\<lambda>s. False) ''<td></td><td>A</td><td>a</td>'' = [[], ''A'', ''a''] \<and>
   cleaned_cells (\<lambda>s. False) ''<td>B</td><td>b</td>'' = [''B'', ''b''] \<and>
   extract_rows (\<lambda>s. False) ''<table><tr><td></td><td>A</td><td>a</td></tr><tr><td>B</td><td>b</td></tr></table>''
     = [\<lparr>group = ungrouped, product_name = ''A'', product_short = ''a'', repo_path = None\<rparr>]"
  by code_simp

text \<open>
  C5, as the code has it. A three-cell row whose first cell is not empty after
  stripping, followed by \<open>n\<close> two-cell rows, appends \<open>n + 1\<close> records in row order, all
  with the group of that first cell, whatever the group was before; the rows after the
  run see that group. A table that consists of such a run parses to exactly these
  \<open>n + 1\<close> records. A two-cell row met before any group is set is skipped.
\<close>

theorem extract_rows_group_run:
  "(length (cleaned_cells nd row0) = 3 \<and> cleaned_cells nd row0 ! 0 = g \<and> g \<noteq> [] \<and>
    (\<forall>row \<in> set rows. length (cleaned_cells nd row) = 2) \<longrightarrow>
      extract_loop nd cg acc (row0 # rows @ rest) =
        extract_loop nd (Some g)
          (acc @
           \<lparr>group = g, product_name = cleaned_cells nd row0 ! 1,
            product_short = cleaned_cells nd row0 ! 2, repo_path = row_repo_path row0\<rparr> #
           map (\<lambda>row. \<lparr>group = g, product_name = cleaned_cells nd row ! 0,
                        product_short = cleaned_cells nd row ! 1,
                        repo_path = row_repo_path row\<rparr>) rows)
          rest \<and>
      (tr_findall table_html = row0 # rows \<longrightarrow>
         extract_rows nd table_html =
           \<lparr>group = g, product_name = cleaned_cells nd row0 ! 1,
            product_short = cleaned_cells nd row0 ! 2, repo_path = row_repo_path row0\<rparr> #
           map (\<lambda>row. \<lparr>group = g, product_name = cleaned_cells nd row ! 0,
                        product_short = cleaned_cells nd row ! 1,
                        repo_path = row_repo_path row\<rparr>) rows \<and>
         length (extract_rows nd table_html) = length rows + 1 \<and>
         (\<forall>item \<in> set (extract_rows nd table_html). group item = g))) \<and>
   (length (cleaned_cells nd row) = 2 \<longrightarrow>
      extract_loop nd None acc (row # rest) = extract_loop nd None acc rest)"
proof -
  let ?item0 = "\<lparr>group = g, product_name = cleaned_cells nd row0 ! 1,
            product_short = cleaned_cells nd row0 ! 2, repo_path = row_repo_path row0\<rparr>"
  let ?items = "map (\<lambda>row. \<lparr>group = g, product_name = cleaned_cells nd row ! 0,
                        product_short = cleaned_cells nd row ! 1,
                        repo_path = row_repo_path row\<rparr>) rows"
  have run: "extract_loop nd cg' acc' (row0 # rows @ rest') =
      extract_loop nd (Some g) (acc' @ ?item0 # ?items) rest'"
    if h: "length (cleaned_cells nd row0) = 3" "cleaned_cells nd row0 ! 0 = g" "g \<noteq> []"
      "\<forall>row \<in> set rows. length (cleaned_cells nd row) = 2"
    for cg' acc' rest'
  proof -
    have "extract_loop nd cg' acc' (row0 # rows @ rest') =
        extract_loop nd (Some g) (acc' @ [?item0]) (rows @ rest')"
      using h(1,2,3) by (simp add: row_step_three)
    also have "\<dots> = extract_loop nd (Some g) ((acc' @ [?item0]) @ ?items) rest'"
      using h(3,4) by (rule extract_loop_two_cell_run)
    finally show ?thesis by simp
  qed
  have top: "extract_rows nd table_html = ?item0 # ?items \<and>
      length (extract_rows nd table_html) = length rows + 1 \<and>
      (\<forall>item \<in> set (extract_rows nd table_html). group item = g)"
    if h: "length (cleaned_cells nd row0) = 3" "cleaned_cells nd row0 ! 0 = g" "g \<noteq> []"
      "\<forall>row \<in> set rows. length (cleaned_cells nd row) = 2"
      and t: "tr_findall table_html = row0 # rows"
  proof -
    have "extract_rows nd table_html = extract_loop nd None [] (row0 # rows @ [])"
      by (simp add: extract_rows_def t)
    also have "\<dots> = extract_loop nd (Some g) ([] @ ?item0 # ?items) []"
      using h by (rule run)
    finally have "extract_rows nd table_html = ?item0 # ?items" by simp
    then show ?thesis by auto
  qed
  have skip: "extract_loop nd None acc (row # rest) = extract_loop nd None acc rest"
    if "length (cleaned_cells nd row) = 2"
  proof -
    have "row_step nd None row = (None, None)"
      using that by (intro row_step_skip) (simp_all add: str_truthy_def)
    then show ?thesis by simp
  qed
  from run [of cg acc rest] top skip show ?thesis by blast
qed

theorem extract_rows_group_run_witness:
  "tr_findall
     ''<table><tr><td rowspan=\"3\">Compute</td><td><a href=\"https://h/mcp-server/tree/master-dev/hw/mcp_server_ecs\">Elastic Cloud Server</a></td><td>ECS</td></tr><tr><td>Bare Metal Server</td><td>BMS</td></tr><tr><td>Auto Scaling</td><td> AS </td></tr></table>''
   = [''<td rowspan=\"3\">Compute</td><td><a href=\"https://h/mcp-server/tree/master-dev/hw/mcp_server_ecs\">Elastic Cloud Server</a></td><td>ECS</td>'',
      ''<td>Bare Metal Server</td><td>BMS</td>'',
      ''<td>Auto Scaling</td><td> AS </td>''] \<and>
   cleaned_cells (\<lambda>s. False)
     ''<td rowspan=\"3\">Compute</td><td><a href=\"https://h/mcp-server/tree/master-dev/hw/mcp_server_ecs\">Elastic Cloud Server</a></td><td>ECS</td>''
   = [''Compute'', ''Elastic Cloud Server'', ''ECS''] \<and>
   cleaned_cells (\<lambda>s. False) ''<td>Bare Metal Server</td><td>BMS</td>'' = [''Bare Metal Server'', ''BMS''] \<and>
   cleaned_cells (\<lambda>s. False) ''<td>Auto Scaling</td><td> AS </td>'' = [''Auto Scaling'', ''AS''] \<and>
   extract_rows (\<lambda>s. False)
     ''<table><tr><td rowspan=\"3\">Compute</td><td><a href=\"https://h/mcp-server/tree/master-dev/hw/mcp_server_ecs\">Elastic Cloud Server</a></td><td>ECS</td></tr><tr><td>Bare Metal Server</td><td>BMS</td></tr><tr><td>Auto Scaling</td><td> AS </td></tr></table>''
   = [\<lparr>group = ''Compute'', product_name = ''Elastic Cloud Server'', product_short = ''ECS'',
        repo_path = Some ''hw/mcp_server_ecs''\<rparr>,
      \<lparr>group = ''Compute'', product_name = ''Bare Metal Server'', product_short = ''BMS'',
        repo_path = None\<rparr>,
      \<lparr>group = ''Compute'', product_name = ''Auto Scaling'', product_short = ''AS'',
        repo_path = None\<rparr>] \<and>
   extract_loop (\<lambda>s. False) None [] [''<td>Bare Metal Server</td><td>BMS</td>''] = []"
proof -
  let ?t = "''<table><tr><td rowspan=\"3\">Compute</td><td><a href=\"https://h/mcp-server/tree/master-dev/hw/mcp_server_ecs\">Elastic Cloud Server</a></td><td>ECS</td></tr><tr><td>Bare Metal Server</td><td>BMS</td></tr><tr><td>Auto Scaling</td><td> AS </td></tr></table>''"
  let ?r0 = "''<td rowspan=\"3\">Compute</td><td><a href=\"https://h/mcp-server/tree/master-dev/hw/mcp_server_ecs\">Elastic Cloud Server</a></td><td>ECS</td>''"
  let ?r1 = "''<td>Bare Metal Server</td><td>BMS</td>''"
  let ?r2 = "''<td>Auto Scaling</td><td> AS </td>''"
  have t: "tr_findall ?t = ?r0 # [?r1, ?r2]" by code_simp
  have c0: "cleaned_cells (\<lambda>s. False) ?r0 = [''Compute'', ''Elastic Cloud Server'', ''ECS'']" by code_simp
  have c1: "cleaned_cells (\<lambda>s. False) ?r1 = [''Bare Metal Server'', ''BMS'']" by code_simp
  have c2: "cleaned_cells (\<lambda>s. False) ?r2 = [''Auto Scaling'', ''AS'']" by code_simp
  have p0: "row_repo_path ?r0 = Some ''hw/mcp_server_ecs''" by code_simp
  have p1: "row_repo_path ?r1 = None" by code_simp
  have p2: "row_repo_path ?r2 = None" by code_simp
  have h: "length (cleaned_cells (\<lambda>s. False) ?r0) = 3 \<and> cleaned_cells (\<lambda>s. False) ?r0 ! 0 = ''Compute'' \<and>
      ''Compute'' \<noteq> [] \<and> (\<forall>row \<in> set [?r1, ?r2]. length (cleaned_cells (\<lambda>s. False) row) = 2)"
    by (simp add: c0 c1 c2)
  have h2: "length (cleaned_cells (\<lambda>s. False) ?r1) = 2" by (simp add: c1)
  from extract_rows_group_run
    [of "\<lambda>s. False" ?r0 "''Compute''" "[?r1, ?r2]" None "[]" "[]" ?t ?r1] h t h2
  have "extract_rows (\<lambda>s. False) ?t =
           \<lparr>group = ''Compute'', product_name = cleaned_cells (\<lambda>s. False) ?r0 ! 1,
            product_short = cleaned_cells (\<lambda>s. False) ?r0 ! 2, repo_path = row_repo_path ?r0\<rparr> #
           map (\<lambda>row. \<lparr>group = ''Compute'', product_name = cleaned_cells (\<lambda>s. False) row ! 0,
                        product_short = cleaned_cells (\<lambda>s. False) row ! 1,
                        repo_path = row_repo_path row\<rparr>) [?r1, ?r2]"
    and s: "extract_loop (\<lambda>s. False) None [] [?r1] = extract_loop (\<lambda>s. False) None [] []"
    by blast+
  then have "extract_rows (\<lambda>s. False) ?t =
      [\<lparr>group = ''Compute'', product_name = ''Elastic Cloud Server'', product_short = ''ECS'',
        repo_path = Some ''hw/mcp_server_ecs''\<rparr>,
      \<lparr>group = ''Compute'', product_name = ''Bare Metal Server'', product_short = ''BMS'',
        repo_path = None\<rparr>,
      \<lparr>group = ''Compute'', product_name = ''Auto Scaling'', product_short = ''AS'',
        repo_path = None\<rparr>]"
    by (simp add: c0 c1 c2 p0 p1 p2)
  with t c0 c1 c2 s show ?thesis by simp
qed

text \<open>
  C9. A three-cell row whose first cell is empty after stripping appends a record with
  the fallback group, which is not the empty string, and sets the current group to the
  empty string, which is no group context. The two-cell rows that follow it are skipped:
  up to the next three-cell row with a first cell that is not empty, only three-cell
  rows append records, each with the fallback group.
\<close>

theorem empty_group_cell_ungrouped:
  "(length (cleaned_cells nd row0) = 3 \<and> cleaned_cells nd row0 ! 0 = [] \<longrightarrow>
      row_step nd cg row0 =
        (Some [],
         Some \<lparr>group = ungrouped, product_name = cleaned_cells nd row0 ! 1,
               product_short = cleaned_cells nd row0 ! 2, repo_path = row_repo_path row0\<rparr>) \<and>
      \<not> str_truthy (Some []) \<and> ungrouped \<noteq> [] \<and>
      ungrouped = [CHR 0xE6, CHR 0x9C, CHR 0xAA, CHR 0xE5, CHR 0x88, CHR 0x86,
                   CHR 0xE7, CHR 0xBB, CHR 0x84] \<and>
      ((\<forall>row \<in> set rows. length (cleaned_cells nd row) = 2) \<longrightarrow>
         extract_loop nd cg acc (row0 # rows @ rest) =
           extract_loop nd (Some [])
             (acc @ [\<lparr>group = ungrouped, product_name = cleaned_cells nd row0 ! 1,
                      product_short = cleaned_cells nd row0 ! 2,
                      repo_path = row_repo_path row0\<rparr>])
             rest) \<and>
      ((\<forall>row \<in> set rows.
           \<not> (length (cleaned_cells nd row) = 3 \<and> cleaned_cells nd row ! 0 \<noteq> [])) \<longrightarrow>
         extract_loop nd cg acc (row0 # rows @ rest) =
           extract_loop nd (Some [])
             (acc @
              \<lparr>group = ungrouped, product_name = cleaned_cells nd row0 ! 1,
               product_short = cleaned_cells nd row0 ! 2, repo_path = row_repo_path row0\<rparr> #
              map (\<lambda>row. \<lparr>group = ungrouped, product_name = cleaned_cells nd row ! 1,
                           product_short = cleaned_cells nd row ! 2,
                           repo_path = row_repo_path row\<rparr>)
                  (filter (\<lambda>row. length (cleaned_cells nd row) = 3) rows))
             rest))"
proof (intro impI)
  assume h: "length (cleaned_cells nd row0) = 3 \<and> cleaned_cells nd row0 ! 0 = []"
  let ?item0 = "\<lparr>group = ungrouped, product_name = cleaned_cells nd row0 ! 1,
               product_short = cleaned_cells nd row0 ! 2, repo_path = row_repo_path row0\<rparr>"
  let ?three = "filter (\<lambda>row. length (cleaned_cells nd row) = 3) rows"
  let ?items = "map (\<lambda>row. \<lparr>group = ungrouped, product_name = cleaned_cells nd row ! 1,
                           product_short = cleaned_cells nd row ! 2,
                           repo_path = row_repo_path row\<rparr>) ?three"
  have step: "row_step nd cg row0 = (Some [], Some ?item0)"
    using h by (simp add: row_step_three)
  have gen: "extract_loop nd cg acc (row0 # rows @ rest) =
      extract_loop nd (Some []) (acc @ ?item0 # ?items) rest"
    if r: "\<forall>row \<in> set rows.
           \<not> (length (cleaned_cells nd row) = 3 \<and> cleaned_cells nd row ! 0 \<noteq> [])"
  proof -
    have "extract_loop nd cg acc (row0 # rows @ rest) =
        extract_loop nd (Some []) (acc @ [?item0]) (rows @ rest)"
      using step by simp
    also have "\<dots> = extract_loop nd (Some []) ((acc @ [?item0]) @ ?items) rest"
      using r by (rule extract_loop_no_context)
    finally show ?thesis by simp
  qed
  have two: "extract_loop nd cg acc (row0 # rows @ rest) =
      extract_loop nd (Some []) (acc @ [?item0]) rest"
    if r: "\<forall>row \<in> set rows. length (cleaned_cells nd row) = 2"
  proof -
    from r have "\<forall>row \<in> set rows.
           \<not> (length (cleaned_cells nd row) = 3 \<and> cleaned_cells nd row ! 0 \<noteq> [])" by simp
    from gen [OF this] have "extract_loop nd cg acc (row0 # rows @ rest) =
      extract_loop nd (Some []) (acc @ ?item0 # ?items) rest" .
    moreover from r have "?three = []" by (simp add: filter_empty_conv)
    ultimately show ?thesis by simp
  qed
  from step gen two ungrouped_nonempty
  show "row_step nd cg row0 = (Some [], Some ?item0) \<and>
      \<not> str_truthy (Some []) \<and> ungrouped \<noteq> [] \<and>
      ungrouped = [CHR 0xE6, CHR 0x9C, CHR 0xAA, CHR 0xE5, CHR 0x88, CHR 0x86,
                   CHR 0xE7, CHR 0xBB, CHR 0x84] \<and>
      ((\<forall>row \<in> set rows. length (cleaned_cells nd row) = 2) \<longrightarrow>
         extract_loop nd cg acc (row0 # rows @ rest) =
           extract_loop nd (Some []) (acc @ [?item0]) rest) \<and>
      ((\<forall>row \<in> set rows.
           \<not> (length (cleaned_cells nd row) = 3 \<and> cleaned_cells nd row ! 0 \<noteq> [])) \<longrightarrow>
         extract_loop nd cg acc (row0 # rows @ rest) =
           extract_loop nd (Some []) (acc @ ?item0 # ?items) rest)"
    by (simp add: str_truthy_def ungrouped_def [symmetric])
qed

theorem empty_group_cell_ungrouped_witness:
  "cleaned_cells (\<lambda>s. False) ''<td> <b></b> </td><td>A</td><td>a</td>'' = [[], ''A'', ''a''] \<and>
   cleaned_cells (\<lambda>s. False) ''<td>B</td><td>b</td>'' = [''B'', ''b''] \<and>
   cleaned_cells (\<lambda>s. False) ''<td></td><td>C</td><td>c</td>'' = [[], ''C'', ''c''] \<and>
   cleaned_cells (\<lambda>s. False) ''<td>G</td><td>E</td><td>e</td>'' = [''G'', ''E'', ''e''] \<and>
   extract_loop (\<lambda>s. False) None []
     [''<td> <b></b> </td><td>A</td><td>a</td>'', ''<td>B</td><td>b</td>'']
   = [\<lparr>group = ungrouped, product_name = ''A'', product_short = ''a'', repo_path = None\<rparr>] \<and>
   extract_loop (\<lambda>s. False) (Some ''Compute'') []
     [''<td> <b></b> </td><td>A</td><td>a</td>'', ''<td>B</td><td>b</td>'',
      ''<td></td><td>C</td><td>c</td>'', ''<td>B</td><td>b</td>'',
      ''<td>G</td><td>E</td><td>e</td>'', ''<td>B</td><td>b</td>'']
   = [\<lparr>group = ungrouped, product_name = ''A'', product_short = ''a'', repo_path = None\<rparr>,
      \<lparr>group = ungrouped, product_name = ''C'', product_short = ''c'', repo_path = None\<rparr>,
      \<lparr>group = ''G'', product_name = ''E'', product_short = ''e'', repo_path = None\<rparr>,
      \<lparr>group = ''G'', product_name = ''B'', product_short = ''b'', repo_path = None\<rparr>]"
proof -
  let ?a = "''<td> <b></b> </td><td>A</td><td>a</td>''"
  let ?b = "''<td>B</td><td>b</td>''"
  let ?c = "''<td></td><td>C</td><td>c</td>''"
  let ?e = "''<td>G</td><td>E</td><td>e</td>''"
  have ca: "cleaned_cells (\<lambda>s. False) ?a = [[], ''A'', ''a'']" by code_simp
  have cb: "cleaned_cells (\<lambda>s. False) ?b = [''B'', ''b'']" by code_simp
  have cc: "cleaned_cells (\<lambda>s. False) ?c = [[], ''C'', ''c'']" by code_simp
  have ce: "cleaned_cells (\<lambda>s. False) ?e = [''G'', ''E'', ''e'']" by code_simp
  have pa: "row_repo_path ?a = None" by code_simp
  have pc: "row_repo_path ?c = None" by code_simp
  have h: "length (cleaned_cells (\<lambda>s. False) ?a) = 3 \<and> cleaned_cells (\<lambda>s. False) ?a ! 0 = []"
    by (simp add: ca)
  have two: "\<forall>row \<in> set [?b]. length (cleaned_cells (\<lambda>s. False) row) = 2"
    by (simp add: cb)
  have gen: "\<forall>row \<in> set [?b, ?c, ?b].
      \<not> (length (cleaned_cells (\<lambda>s. False) row) = 3 \<and> cleaned_cells (\<lambda>s. False) row ! 0 \<noteq> [])"
    by (simp add: cb cc)
  from empty_group_cell_ungrouped
    [where nd = "\<lambda>s. False" and ?row0.0 = ?a and rows = "[?b]" and cg = None
       and acc = "[]" and rest = "[]"] h two
  have 1: "extract_loop (\<lambda>s. False) None [] (?a # [?b] @ []) =
      extract_loop (\<lambda>s. False) (Some [])
        ([] @ [\<lparr>group = ungrouped, product_name = cleaned_cells (\<lambda>s. False) ?a ! 1,
                 product_short = cleaned_cells (\<lambda>s. False) ?a ! 2, repo_path = row_repo_path ?a\<rparr>]) []"
    by blast
  from empty_group_cell_ungrouped
    [where nd = "\<lambda>s. False" and ?row0.0 = ?a and rows = "[?b, ?c, ?b]"
       and cg = "Some ''Compute''" and acc = "[]"
       and rest = "[?e, ?b]"] h gen
  have 2: "extract_loop (\<lambda>s. False) (Some ''Compute'') [] (?a # [?b, ?c, ?b] @ [?e, ?b]) =
      extract_loop (\<lambda>s. False) (Some [])
        ([] @
         \<lparr>group = ungrouped, product_name = cleaned_cells (\<lambda>s. False) ?a ! 1,
          product_short = cleaned_cells (\<lambda>s. False) ?a ! 2, repo_path = row_repo_path ?a\<rparr> #
         map (\<lambda>row. \<lparr>group = ungrouped, product_name = cleaned_cells (\<lambda>s. False) row ! 1,
                      product_short = cleaned_cells (\<lambda>s. False) row ! 2,
                      repo_path = row_repo_path row\<rparr>)
             (filter (\<lambda>row. length (cleaned_cells (\<lambda>s. False) row) = 3) [?b, ?c, ?b]))
        [?e, ?b]"
    by blast
  have 3: "extract_loop (\<lambda>s. False) (Some [])
      [\<lparr>group = ungrouped, product_name = ''A'', product_short = ''a'', repo_path = None\<rparr>,
       \<lparr>group = ungrouped, product_name = ''C'', product_short = ''c'', repo_path = None\<rparr>]
      [?e, ?b]
    = [\<lparr>group = ungrouped, product_name = ''A'', product_short = ''a'', repo_path = None\<rparr>,
       \<lparr>group = ungrouped, product_name = ''C'', product_short = ''c'', repo_path = None\<rparr>,
       \<lparr>group = ''G'', product_name = ''E'', product_short = ''e'', repo_path = None\<rparr>,
       \<lparr>group = ''G'', product_name = ''B'', product_short = ''b'', repo_path = None\<rparr>]"
    by code_simp
  from 1 have r1: "extract_loop (\<lambda>s. False) None [] [?a, ?b] =
      [\<lparr>group = ungrouped, product_name = ''A'', product_short = ''a'', repo_path = None\<rparr>]"
    by (simp add: ca pa)
  from 2 3 have r2: "extract_loop (\<lambda>s. False) (Some ''Compute'') [] [?a, ?b, ?c, ?b, ?e, ?b] =
      [\<lparr>group = ungrouped, product_name = ''A'', product_short = ''a'', repo_path = None\<rparr>,
       \<lparr>group = ungrouped, product_name = ''C'', product_short = ''c'', repo_path = None\<rparr>,
       \<lparr>group = ''G'', product_name = ''E'', product_short = ''e'', repo_path = None\<rparr>,
       \<lparr>group = ''G'', product_name = ''B'', product_short = ''b'', repo_path = None\<rparr>]"
    by (simp add: ca cb cc pa pc)
  from ca cb cc ce r1 r2 show ?thesis by blast
qed

end
